theory Spec2Isabelle
  imports Main
begin

section \<open>Data model\<close>

text \<open>
  The documents of the booking platform, as the Mongoose schemas declare them
  (models/Booking.js, models/Client.js, models/TimeLock.js, models/BlockedDates.js).
  A JavaScript \<open>Date\<close> is its number of milliseconds since the epoch, an \<open>int\<close>;
  local time is taken to be UTC without daylight saving, so that the start of the
  local day of \<open>d\<close> is \<open>d - d mod 86400000\<close>. A time of day is the string the
  schema stores (\<open>HH:MM\<close>); \<open>ObjectId\<close>s are natural numbers.
\<close>

datatype status = Pending | Confirmed | Declined | Completed | Cancelled

record service =
  s_id :: int
  s_name :: string
  s_duration :: int
  s_price :: int

record booking =
  b_id :: nat
  b_client :: "nat option"
  b_clientName :: string
  b_phoneNumber :: string
  b_email :: string
  b_service :: int
  b_date :: int
  b_time :: string
  b_status :: status
  b_verificationCode :: string
  b_verified :: bool
  b_emailCount :: int
  b_lastEmailSentAt :: "int option"
  b_createdAt :: int
  b_completedAt :: "int option"
  b_notes :: "string option"
  b_countryCode :: string

record client =
  c_id :: nat
  c_name :: string
  c_phoneNumber :: string
  c_email :: string
  c_countryCode :: string
  c_isBlocked :: bool
  c_blockReason :: "string option"
  c_blockDate :: "int option"
  c_createdAt :: int
  c_lastVisit :: "int option"
  c_totalBookings :: int
  c_completedBookings :: int
  c_emailsSent :: int
  c_lastEmailSentAt :: "int option"
  c_lastModified :: int

record timeLock =
  l_date :: int
  l_time :: string
  l_serviceId :: int
  l_lockedBy :: string
  l_lockedAt :: int

record blockedDate =
  bd_id :: nat
  bd_date :: int
  bd_isFullDayBlocked :: bool
  bd_blockedHours :: "string list"
  bd_reason :: string
  bd_createdBy :: nat
  bd_createdAt :: int
  bd_updatedAt :: int

text \<open>
  The stored state: the five collections, in insertion order, and the in-process
  service cache of the booking controller (\<open>serviceCache\<close>).
\<close>

record store =
  services :: "service list"
  bookings :: "booking list"
  clients :: "client list"
  locks :: "timeLock list"
  blockedDates :: "blockedDate list"
  cacheServices :: "service list"
  cacheLastUpdated :: int

section \<open>Dates and times of day\<close>

definition msPerMinute :: int where
  "msPerMinute = 60000"

definition msPerDay :: int where
  "msPerDay = 24 * 60 * 60 * 1000"

definition startOfDay :: "int \<Rightarrow> int" where
  \<comment> \<open>\<open>d.setHours(0, 0, 0, 0)\<close>, also \<open>new Date(d.toDateString())\<close>\<close>
  "startOfDay d = d - d mod msPerDay"

definition endOfDay :: "int \<Rightarrow> int" where
  \<comment> \<open>\<open>d.setHours(23, 59, 59, 999)\<close>\<close>
  "endOfDay d = startOfDay d + (msPerDay - 1)"

definition getDay :: "int \<Rightarrow> int" where
  \<comment> \<open>0 is Sunday, 6 is Saturday; the epoch was a Thursday\<close>
  "getDay d = (d div msPerDay + 4) mod 7"

definition isDigit :: "char \<Rightarrow> bool" where
  "isDigit c = (48 \<le> (of_char c :: nat) \<and> (of_char c :: nat) \<le> 57)"

definition digitVal :: "char \<Rightarrow> nat" where
  "digitVal c = (of_char c :: nat) - 48"

text \<open>
  The time pattern of the schemas and of every check in the controllers,
  \<^verbatim>\<open>/^([01]?[0-9]|2[0-3]):[0-5][0-9]$/\<close>, together with the split at the colon
  that reads hour and minute from a string it accepts.
\<close>

fun parseTime :: "string \<Rightarrow> (nat \<times> nat) option" where
  "parseTime [h1, h2, c, m1, m2] =
     (if c = CHR '':'' \<and> isDigit h1 \<and> isDigit h2 \<and> isDigit m1 \<and> isDigit m2
         \<and> (digitVal h1 \<le> 1 \<or> (digitVal h1 = 2 \<and> digitVal h2 \<le> 3))
         \<and> digitVal m1 \<le> 5
      then Some (digitVal h1 * 10 + digitVal h2, digitVal m1 * 10 + digitVal m2)
      else None)"
| "parseTime [h2, c, m1, m2] =
     (if c = CHR '':'' \<and> isDigit h2 \<and> isDigit m1 \<and> isDigit m2 \<and> digitVal m1 \<le> 5
      then Some (digitVal h2, digitVal m1 * 10 + digitVal m2)
      else None)"
| "parseTime _ = None"

definition timeInMinutes :: "nat \<times> nat \<Rightarrow> int" where
  "timeInMinutes hm = int (fst hm) * 60 + int (snd hm)"

definition dateTimeOf :: "int \<Rightarrow> string \<Rightarrow> int option" where
  \<comment> \<open>\<open>new Date(`${date.toDateString()} ${time}`)\<close>; \<open>None\<close> is the invalid date,
      which every comparison answers with false\<close>
  "dateTimeOf d t =
     (case parseTime t of
        None \<Rightarrow> None
      | Some hm \<Rightarrow> Some (startOfDay d + timeInMinutes hm * msPerMinute))"

definition pad2 :: "nat \<Rightarrow> string" where
  \<comment> \<open>\<open>n.toString().padStart(2, '0')\<close> for \<open>n < 100\<close>\<close>
  "pad2 n = [char_of (48 + n div 10), char_of (48 + n mod 10)]"

section \<open>Blocked dates (models/BlockedDates.js)\<close>

datatype blockType = FullDay | SpecificHours

record blockInfo =
  bi_isBlocked :: bool
  bi_reason :: "string option"
  bi_type :: "blockType option"

definition notBlocked :: blockInfo where
  "notBlocked = \<lparr>bi_isBlocked = False, bi_reason = None, bi_type = None\<rparr>"

definition findBlockedDate :: "store \<Rightarrow> int \<Rightarrow> blockedDate option" where
  \<comment> \<open>\<open>findOne({date: {$gte: startOfDay, $lte: endOfDay}})\<close>\<close>
  "findBlockedDate st d =
     find (\<lambda>b. startOfDay d \<le> bd_date b \<and> bd_date b \<le> endOfDay d) (blockedDates st)"

definition isDateTimeBlocked :: "store \<Rightarrow> int \<Rightarrow> string option \<Rightarrow> blockInfo" where
  "isDateTimeBlocked st d time =
     (if (case time of None \<Rightarrow> False | Some t \<Rightarrow> t \<noteq> [] \<and> parseTime t = None)
      then notBlocked
      else case findBlockedDate st d of
        None \<Rightarrow> notBlocked
      | Some bd \<Rightarrow>
          if bd_isFullDayBlocked bd
          then \<lparr>bi_isBlocked = True, bi_reason = Some (bd_reason bd), bi_type = Some FullDay\<rparr>
          else (case time of
                  None \<Rightarrow> notBlocked
                | Some t \<Rightarrow>
                    if t = [] then notBlocked
                    else if t \<in> set (bd_blockedHours bd)
                    then \<lparr>bi_isBlocked = True, bi_reason = Some (bd_reason bd),
                          bi_type = Some SpecificHours\<rparr>
                    else notBlocked))"

section \<open>Availability of a time slot (models/Booking.js)\<close>

definition findService :: "service list \<Rightarrow> int \<Rightarrow> service option" where
  \<comment> \<open>\<open>Service.findById(id)\<close> and \<open>services.find(s => s._id === id)\<close>\<close>
  "findService ss k = find (\<lambda>s. s_id s = k) ss"

definition overlaps :: "int \<Rightarrow> int \<Rightarrow> int \<Rightarrow> int \<Rightarrow> bool" where
  \<comment> \<open>the three-way test of \<open>isTimeSlotAvailable\<close>, on \<open>[startTime, endTime)\<close> and the
      occupied interval \<open>[s2, e2)\<close>\<close>
  "overlaps startTime endTime s2 e2 =
     ((startTime \<ge> s2 \<and> startTime < e2) \<or>
      (endTime > s2 \<and> endTime \<le> e2) \<or>
      (startTime \<le> s2 \<and> endTime \<ge> e2))"

definition onDate :: "int \<Rightarrow> int \<Rightarrow> bool" where
  \<comment> \<open>\<open>{$gte: new Date(date.toDateString()), $lt: that + 24 h}\<close>\<close>
  "onDate d x = (startOfDay d \<le> x \<and> x < startOfDay d + msPerDay)"

definition activeLocks :: "store \<Rightarrow> int \<Rightarrow> timeLock list" where
  "activeLocks st d =
     take 50 (filter (\<lambda>l. onDate d (l_date l) \<and> l_serviceId l \<in> set (map s_id (services st)))
                (locks st))"

definition overlappingBookings :: "store \<Rightarrow> int \<Rightarrow> booking list" where
  "overlappingBookings st d =
     take 50 (filter (\<lambda>b. onDate d (b_date b) \<and> (b_status b = Pending \<or> b_status b = Confirmed))
                (bookings st))"

fun lockLoop :: "service list \<Rightarrow> int \<Rightarrow> int \<Rightarrow> timeLock list \<Rightarrow> bool" where
  \<comment> \<open>true when the loop over the locks returns false from \<open>isTimeSlotAvailable\<close>\<close>
  "lockLoop ss startTime endTime [] = False"
| "lockLoop ss startTime endTime (l # ls) =
     (case findService ss (l_serviceId l) of
        None \<Rightarrow> lockLoop ss startTime endTime ls
      | Some lockService \<Rightarrow>
          (case dateTimeOf (l_date l) (l_time l) of
             None \<Rightarrow> lockLoop ss startTime endTime ls
           | Some lockStartTime \<Rightarrow>
               if overlaps startTime endTime lockStartTime
                    (lockStartTime + s_duration lockService * msPerMinute)
               then True
               else lockLoop ss startTime endTime ls))"

fun bookingLoop :: "service list \<Rightarrow> int \<Rightarrow> int \<Rightarrow> booking list \<Rightarrow> bool" where
  \<comment> \<open>true when the loop over the bookings returns false from \<open>isTimeSlotAvailable\<close>\<close>
  "bookingLoop ss startTime endTime [] = False"
| "bookingLoop ss startTime endTime (b # bs) =
     (case findService ss (b_service b) of
        None \<Rightarrow> bookingLoop ss startTime endTime bs
      | Some sv \<Rightarrow>
          (case dateTimeOf (b_date b) (b_time b) of
             None \<Rightarrow> bookingLoop ss startTime endTime bs
           | Some bookingStartTime \<Rightarrow>
               if overlaps startTime endTime bookingStartTime
                    (bookingStartTime + s_duration sv * msPerMinute)
               then True
               else bookingLoop ss startTime endTime bs))"

definition isTimeSlotAvailable :: "store \<Rightarrow> int \<Rightarrow> string \<Rightarrow> int \<Rightarrow> bool" where
  "isTimeSlotAvailable st d time duration =
     (if time = [] then False
      else if duration \<le> 0 \<or> duration > 240 then False
      else case parseTime time of
        None \<Rightarrow> False
      | Some hm \<Rightarrow>
          let startTime = startOfDay d + timeInMinutes hm * msPerMinute;
              endTime = startTime + duration * msPerMinute;
              dayOfWeek = getDay d;
              endTimeInMinutes = timeInMinutes hm + duration
          in if dayOfWeek = 0 then False
             else if dayOfWeek = 6 \<and> (timeInMinutes hm < 10 * 60 \<or> endTimeInMinutes > 13 * 60)
             then False
             else if dayOfWeek \<noteq> 6 \<and> (timeInMinutes hm < 10 * 60 \<or> endTimeInMinutes > 19 * 60)
             then False
             else if lockLoop (services st) startTime endTime (activeLocks st d) then False
             else if bookingLoop (services st) startTime endTime (overlappingBookings st d)
             then False
             else if bi_isBlocked (isDateTimeBlocked st d (Some time)) then False
             else if bi_isBlocked (isDateTimeBlocked st d None)
                     \<and> bi_type (isDateTimeBlocked st d None) = Some FullDay
             then False
             else True)"

section \<open>Collections\<close>

text \<open>
  The store operations the code uses. A \<open>save()\<close> of a loaded document writes the
  paths that were modified, so it is an update of the stored document with that
  \<open>_id\<close>. Stored documents satisfy their schemas, having been validated when they
  were written, so a write is refused in two cases only: the duplicate key of the unique
  index on time locks, and the save of a client with a counter beyond the bound of 1000
  that the Client schema sets, which the two controllers that add to a counter without a
  test can cause (\<open>completeBooking\<close> and \<open>completeBookingService\<close>); there the
  validation of the bounded counters is part of the model. A client populated
  for several bookings of one query is one shared document, so its updates accumulate,
  as updates of the stored client do. The mail module
  (config/email.js) is an external collaborator: whether a message was sent is an input
  of the model, and the usage counters that module keeps for itself are outside it.
\<close>

text \<open>
  What a request or a sweep takes from outside the store: the current time, whether the
  mail about a booking is sent, \<open>Date.toISOString\<close>, the verification code drawn by
  \<open>generateVerificationCode\<close>, the answer of the in-memory rate limiter and the
  Romanian name of a day (\<open>formatDateInRomanian\<close>).
\<close>

record env =
  e_now :: int
  e_mail :: "nat \<Rightarrow> bool"
  e_iso :: "int \<Rightarrow> string"
  e_code :: string
  e_rateOk :: bool
  e_dayName :: "int \<Rightarrow> string"

definition findBooking :: "booking list \<Rightarrow> nat \<Rightarrow> booking option" where
  "findBooking bs k = find (\<lambda>b. b_id b = k) bs"

definition findClient :: "client list \<Rightarrow> nat \<Rightarrow> client option" where
  "findClient cs k = find (\<lambda>c. c_id c = k) cs"

definition updateBooking :: "nat \<Rightarrow> (booking \<Rightarrow> booking) \<Rightarrow> booking list \<Rightarrow> booking list" where
  "updateBooking k f bs = map (\<lambda>b. if b_id b = k then f b else b) bs"

definition deleteBooking :: "nat \<Rightarrow> booking list \<Rightarrow> booking list" where
  \<comment> \<open>\<open>Booking.findByIdAndDelete(id)\<close>\<close>
  "deleteBooking k bs = filter (\<lambda>b. b_id b \<noteq> k) bs"

definition saveClient :: "int \<Rightarrow> nat \<Rightarrow> (client \<Rightarrow> client) \<Rightarrow> client list \<Rightarrow> client list" where
  \<comment> \<open>\<open>client.save()\<close>; the pre-save hook stamps \<open>lastModified\<close>\<close>
  "saveClient now k f cs =
     map (\<lambda>c. if c_id c = k then (f c)\<lparr>c_lastModified := now\<rparr> else c) cs"

definition countersValid :: "client \<Rightarrow> bool" where
  \<comment> \<open>\<open>min: 0, max: 1000\<close> on \<open>totalBookings\<close>, \<open>completedBookings\<close> and
      \<open>emailsSent\<close> of the Client schema\<close>
  "countersValid c =
     (0 \<le> c_totalBookings c \<and> c_totalBookings c \<le> 1000
      \<and> 0 \<le> c_completedBookings c \<and> c_completedBookings c \<le> 1000
      \<and> 0 \<le> c_emailsSent c \<and> c_emailsSent c \<le> 1000)"

definition saveClientChecked ::
  "int \<Rightarrow> nat \<Rightarrow> (client \<Rightarrow> client) \<Rightarrow> client list \<Rightarrow> client list option" where
  \<comment> \<open>\<open>client.save()\<close> with the validation that precedes the write; \<open>None\<close> is the
      \<open>ValidationError\<close> it throws, and nothing is written then\<close>
  "saveClientChecked now k f cs =
     (case findClient cs k of
        None \<Rightarrow> Some cs
      | Some c \<Rightarrow> if countersValid (f c) then Some (saveClient now k f cs) else None)"

definition populateClient :: "store \<Rightarrow> booking \<Rightarrow> client option" where
  \<comment> \<open>\<open>.populate('client')\<close>: the referenced client, or null\<close>
  "populateClient st b =
     (case b_client b of None \<Rightarrow> None | Some k \<Rightarrow> findClient (clients st) k)"

definition incrementEmailCounter :: "int \<Rightarrow> nat \<Rightarrow> client list \<Rightarrow> client list" where
  "incrementEmailCounter now k cs =
     map (\<lambda>c. if c_id c = k
              then (if c_emailsSent c \<ge> 1000 then c
                    else c\<lparr>c_emailsSent := c_emailsSent c + 1,
                           c_lastEmailSentAt := Some now,
                           c_lastModified := now\<rparr>)
              else c) cs"

section \<open>The cleanup sweeper (utils/autoCleanup.js)\<close>

definition autoDeclineNote :: "env \<Rightarrow> string" where
  \<comment> \<open>the note \<open>Respinsa automat - programarea a expirat la\<close> followed by
      \<open>now.toISOString()\<close>; the accented last letter of the first word is its two
      UTF-8 bytes\<close>
  "autoDeclineNote ev =
     ''Respins'' @ [char_of (196::nat), char_of (131::nat)]
       @ '' automat - programarea a expirat la '' @ e_iso ev (e_now ev)"

definition isExpired :: "env \<Rightarrow> booking \<Rightarrow> bool" where
  \<comment> \<open>\<open>bookingDateTime < now\<close>, the date of the booking set to its hours and minutes,
      for a time of day the schema accepts\<close>
  "isExpired ev b =
     (case dateTimeOf (b_date b) (b_time b) of
        None \<Rightarrow> False
      | Some bookingDateTime \<Rightarrow> bookingDateTime < e_now ev)"

definition sendAutoDeclineEmail :: "env \<Rightarrow> store \<Rightarrow> booking \<Rightarrow> bool \<times> store" where
  "sendAutoDeclineEmail ev st b =
     (case findService (services st) (b_service b) of
        None \<Rightarrow> (False, st)
      | Some sv \<Rightarrow>
          if e_mail ev (b_id b)
          then (case populateClient st b of
                  None \<Rightarrow> (True, st)
                | Some c \<Rightarrow>
                    (True, st\<lparr>clients := incrementEmailCounter (e_now ev) (c_id c) (clients st)\<rparr>))
          else (False, st))"

definition autoDecline :: "env \<Rightarrow> store \<Rightarrow> booking \<Rightarrow> bool \<times> store" where
  \<comment> \<open>the body of the second loop of \<open>cleanupExpiredBookings\<close>, for one expired booking;
      the flag tells whether the rejection mail went out\<close>
  "autoDecline ev st b =
     (let (emailSent, st1) = sendAutoDeclineEmail ev st b;
          st2 = (case populateClient st1 b of
                   None \<Rightarrow> st1
                 | Some c \<Rightarrow>
                     st1\<lparr>clients :=
                       saveClient (e_now ev) (c_id c)
                         (\<lambda>x. x\<lparr>c_totalBookings := max 0 (c_totalBookings x - 1)\<rparr>)
                         (clients st1)\<rparr>)
      in (emailSent,
          st2\<lparr>bookings :=
            updateBooking (b_id b)
              (\<lambda>x. x\<lparr>b_status := Declined, b_notes := Some (autoDeclineNote ev)\<rparr>)
              (bookings st2)\<rparr>))"

record cleanupResult =
  cleaned :: nat
  errors :: nat
  emailsSent :: nat

fun expiredLoop :: "env \<Rightarrow> cleanupResult \<times> store \<Rightarrow> booking list \<Rightarrow> cleanupResult \<times> store" where
  "expiredLoop ev (r, st) [] = (r, st)"
| "expiredLoop ev (r, st) (b # bs) =
     (let (emailSent, st') = autoDecline ev st b
      in expiredLoop ev
           (r\<lparr>cleaned := cleaned r + 1,
              emailsSent := (if emailSent then emailsSent r + 1 else emailsSent r)\<rparr>, st') bs)"

definition noResult :: cleanupResult where
  "noResult = \<lparr>cleaned = 0, errors = 0, emailsSent = 0\<rparr>"

definition cleanupExpiredBookings :: "env \<Rightarrow> store \<Rightarrow> cleanupResult \<times> store" where
  "cleanupExpiredBookings ev st =
     (let pendingBookings = filter (\<lambda>b. b_status b = Pending \<and> b_verified b) (bookings st)
      in if pendingBookings = [] then (noResult, st)
         else let expiredBookings = filter (isExpired ev) pendingBookings
              in if expiredBookings = [] then (noResult, st)
                 else expiredLoop ev (noResult, st) expiredBookings)"

definition deleteUnconfirmed :: "env \<Rightarrow> store \<Rightarrow> booking \<Rightarrow> store" where
  \<comment> \<open>the loop body of \<open>cleanupUnconfirmedBookings\<close>\<close>
  "deleteUnconfirmed ev st b =
     (let st1 = (case populateClient st b of
                   None \<Rightarrow> st
                 | Some c \<Rightarrow>
                     st\<lparr>clients :=
                       saveClient (e_now ev) (c_id c)
                         (\<lambda>x. x\<lparr>c_totalBookings := max 0 (c_totalBookings x - 1)\<rparr>)
                         (clients st)\<rparr>)
      in st1\<lparr>bookings := deleteBooking (b_id b) (bookings st1)\<rparr>)"

definition cleanupUnconfirmedBookings :: "env \<Rightarrow> store \<Rightarrow> cleanupResult \<times> store" where
  "cleanupUnconfirmedBookings ev st =
     (let fifteenMinutesAgo = e_now ev - 15 * msPerMinute;
          oldUnconfirmedBookings =
            filter (\<lambda>b. b_status b = Pending \<and> \<not> b_verified b \<and> b_createdAt b < fifteenMinutesAgo)
              (bookings st)
      in (noResult\<lparr>cleaned := length oldUnconfirmedBookings\<rparr>,
          foldl (deleteUnconfirmed ev) st oldUnconfirmedBookings))"

definition cleanupDeclinedBookings :: "env \<Rightarrow> store \<Rightarrow> cleanupResult \<times> store" where
  "cleanupDeclinedBookings ev st =
     (let sevenDaysAgo = e_now ev - 7 * msPerDay;
          old = (\<lambda>b. b_status b = Declined \<and> b_createdAt b < sevenDaysAgo)
      in (noResult\<lparr>cleaned := length (filter old (bookings st))\<rparr>,
          st\<lparr>bookings := filter (\<lambda>b. \<not> old b) (bookings st)\<rparr>))"

definition cleanupExpiredBlockedDates :: "env \<Rightarrow> store \<Rightarrow> cleanupResult \<times> store" where
  "cleanupExpiredBlockedDates ev st =
     (let yesterday = endOfDay (e_now ev - msPerDay)
      in (noResult\<lparr>cleaned := length (filter (\<lambda>b. bd_date b < yesterday) (blockedDates st))\<rparr>,
          st\<lparr>blockedDates := filter (\<lambda>b. \<not> bd_date b < yesterday) (blockedDates st)\<rparr>))"

definition runFullCleanup :: "env \<Rightarrow> store \<Rightarrow> nat \<times> store" where
  \<comment> \<open>the four passes in the order of the source; the number is \<open>totalCleaned\<close>\<close>
  "runFullCleanup ev st =
     (let (expired, st1) = cleanupExpiredBookings ev st;
          (unconfirmed, st2) = cleanupUnconfirmedBookings ev st1;
          (declined, st3) = cleanupDeclinedBookings ev st2;
          (blocked, st4) = cleanupExpiredBlockedDates ev st3
      in (cleaned expired + cleaned unconfirmed + cleaned declined + cleaned blocked, st4))"

section \<open>Replies of the controllers\<close>

datatype emailStatus = EmailSent | EmailFailed | EmailLimited

record conflictInfo =
  ci_id :: nat
  ci_clientName :: string
  ci_time :: string
  ci_service :: string
  ci_status :: status
  ci_conflictingHour :: "string option"

datatype payload =
    NoPayload
  | TimeSlots "string list"
  | LockedSlot int string
  | BookingRef nat
  | EmailReport emailStatus
  | Conflicts "conflictInfo list"

text \<open>
  The fixed messages of \<open>errorResponse\<close>, one tag for each; \<open>InternalError\<close> is
  the message of the \<open>catch\<close> block of the handler at hand.
\<close>

datatype reason =
    ServiceNotFound
  | BookingNotFound
  | SlotReserved
  | SlotBlocked "string option"
  | SessionExpired
  | ServiceRequired
  | DateRequired
  | TimeRequired
  | EmailRequired
  | PastDate
  | TooFarAhead
  | TooManyAttempts
  | ClientIsBlocked
  | DailyEmailLimit
  | VerificationNotSent
  | CannotComplete status
  | CannotSuspendConfirmed
  | BlockConflict
  | HoursRequired
  | InvalidHour string
  | TooManyHours
  | InternalError

datatype response = Success payload | Failure nat reason payload

section \<open>Available time slots\<close>

definition cacheLookup :: "service list \<Rightarrow> int \<Rightarrow> service option" where
  \<comment> \<open>\<open>this.services[serviceId] || null\<close>, the table filled in list order\<close>
  "cacheLookup cs k = find (\<lambda>s. s_id s = k) (rev cs)"

definition getService :: "int \<Rightarrow> store \<Rightarrow> int \<Rightarrow> service option \<times> store" where
  \<comment> \<open>\<open>serviceCache.getService\<close>, with its refresh after 60 s\<close>
  "getService now st k =
     (let st' = (if now - cacheLastUpdated st > 60000
                 then st\<lparr>cacheServices := services st, cacheLastUpdated := now\<rparr>
                 else st)
      in (cacheLookup (cacheServices st') k, st'))"

definition lookupService :: "int \<Rightarrow> store \<Rightarrow> int \<Rightarrow> service option \<times> store" where
  \<comment> \<open>the cache first, then \<open>Service.findById\<close>\<close>
  "lookupService now st k =
     (case getService now st k of
        (Some sv, st') \<Rightarrow> (Some sv, st')
      | (None, st') \<Rightarrow> (findService (services st') k, st'))"

definition endHourOf :: "int \<Rightarrow> nat" where
  \<comment> \<open>Saturday 10:00-13:00, Monday to Friday 10:00-19:00\<close>
  "endHourOf dayOfWeek = (if dayOfWeek = 6 then 13 else 19)"

definition candidateSlots :: "int \<Rightarrow> (nat \<times> nat) list" where
  \<comment> \<open>the two nested loops: every hour from 10 to the closing hour, minutes 0 and 30\<close>
  "candidateSlots dayOfWeek =
     concat (map (\<lambda>h. map (\<lambda>m. (h, m)) [0, 30]) [10 ..< endHourOf dayOfWeek])"

definition slotTime :: "nat \<times> nat \<Rightarrow> string" where
  "slotTime hm = pad2 (fst hm) @ '':'' @ pad2 (snd hm)"

definition fitsSchedule :: "int \<Rightarrow> int \<Rightarrow> nat \<times> nat \<Rightarrow> bool" where
  "fitsSchedule dayOfWeek duration hm =
     (timeInMinutes hm + duration \<le> int (endHourOf dayOfWeek) * 60)"

definition fullDayBlocked :: "store \<Rightarrow> int \<Rightarrow> bool" where
  "fullDayBlocked st d =
     (bi_isBlocked (isDateTimeBlocked st d None)
      \<and> bi_type (isDateTimeBlocked st d None) = Some FullDay)"


definition slotStarted :: "int \<Rightarrow> int \<Rightarrow> nat \<times> nat \<Rightarrow> bool" where
  \<comment> \<open>\<open>slotDateTime <= now\<close>\<close>
  "slotStarted now d hm = (startOfDay d + timeInMinutes hm * msPerMinute \<le> now)"

definition availableSlots :: "int \<Rightarrow> store \<Rightarrow> int \<Rightarrow> int \<Rightarrow> string list" where
  \<comment> \<open>the filtering loop of \<open>getAvailableTimeSlots\<close>\<close>
  "availableSlots now st d duration =
     (let isToday = (startOfDay d = startOfDay now)
      in map slotTime
           (filter (\<lambda>hm. \<not> (isToday \<and> slotStarted now d hm)
                          \<and> isTimeSlotAvailable st d (slotTime hm) duration)
              (filter (fitsSchedule (getDay d) duration) (candidateSlots (getDay d)))))"

definition getAvailableTimeSlots :: "env \<Rightarrow> store \<Rightarrow> int \<Rightarrow> int \<Rightarrow> response \<times> store" where
  "getAvailableTimeSlots ev st d serviceId =
     (let (total, st1) = runFullCleanup ev st;
          (found, st2) = lookupService (e_now ev) st1 serviceId
      in case found of
           None \<Rightarrow> (Failure 404 ServiceNotFound NoPayload, st2)
         | Some sv \<Rightarrow>
             if getDay d = 0 then (Success (TimeSlots []), st2)
             else if fullDayBlocked st2 d then (Success (TimeSlots []), st2)
             else (Success (TimeSlots (availableSlots (e_now ev) st2 d (s_duration sv))), st2))"

section \<open>Claiming a slot (createBooking)\<close>

datatype dbError = DuplicateKey | ValidationError

definition lockKey :: "timeLock \<Rightarrow> int \<times> string \<times> int" where
  \<comment> \<open>the fields of the unique index of the time locks\<close>
  "lockKey l = (l_date l, l_time l, l_serviceId l)"

definition saveTimeLock :: "timeLock \<Rightarrow> timeLock list \<Rightarrow> dbError + timeLock list" where
  \<comment> \<open>\<open>timeLock.save()\<close> of a new lock: the schema is validated, then the insert is
      refused with code 11000 when the unique index already holds the key\<close>
  "saveTimeLock l ls =
     (if l_lockedBy l = [] \<or> parseTime (l_time l) = None then Inl ValidationError
      else if lockKey l \<in> set (map lockKey ls) then Inl DuplicateKey
      else Inr (ls @ [l]))"

definition acquireLock :: "env \<Rightarrow> store \<Rightarrow> int \<Rightarrow> string \<Rightarrow> int \<Rightarrow> string \<Rightarrow> response + store" where
  \<comment> \<open>the inner try block of \<open>createBooking\<close>; an error other than the duplicate key
      is thrown on to the handler of the controller\<close>
  "acquireLock ev st d time serviceId sessionID =
     (case saveTimeLock \<lparr>l_date = d, l_time = time, l_serviceId = serviceId,
                          l_lockedBy = sessionID, l_lockedAt = e_now ev\<rparr> (locks st) of
        Inl DuplicateKey \<Rightarrow> Inl (Failure 400 SlotReserved NoPayload)
      | Inl ValidationError \<Rightarrow> Inl (Failure 500 InternalError NoPayload)
      | Inr ls \<Rightarrow> Inr (st\<lparr>locks := ls\<rparr>))"

definition createBooking :: "env \<Rightarrow> store \<Rightarrow> int \<Rightarrow> int \<Rightarrow> string \<Rightarrow> string \<Rightarrow> response \<times> store" where
  "createBooking ev st serviceId d time sessionID =
     (let (found, st1) = lookupService (e_now ev) st serviceId
      in case found of
           None \<Rightarrow> (Failure 404 ServiceNotFound NoPayload, st1)
         | Some sv \<Rightarrow>
             if \<not> isTimeSlotAvailable st1 d time (s_duration sv)
             then (if bi_isBlocked (isDateTimeBlocked st1 d (Some time))
                   then (Failure 400 (SlotBlocked (bi_reason (isDateTimeBlocked st1 d (Some time))))
                           NoPayload, st1)
                   else (Failure 400 SlotReserved NoPayload, st1))
             else (case acquireLock ev st1 d time serviceId sessionID of
                     Inl r \<Rightarrow> (r, st1)
                   | Inr st2 \<Rightarrow> (Success (LockedSlot (s_id sv) time), st2)))"

section \<open>Submitting the contact details (completeBooking)\<close>

record sessionData =
  sd_serviceId :: int
  sd_date :: int
  sd_time :: string
  sd_expiry :: "int option"

record completeReq =
  q_clientName :: string
  q_phoneNumber :: string
  q_email :: string
  q_countryCode :: string
  q_serviceId :: "int option"
  q_date :: "int option"
  q_time :: string
  q_session :: "sessionData option"
  q_sessionID :: string

definition isSpace :: "char \<Rightarrow> bool" where
  "isSpace c = ((of_char c :: nat) = 32 \<or> (9 \<le> (of_char c :: nat) \<and> (of_char c :: nat) \<le> 13))"

definition trim :: "string \<Rightarrow> string" where
  "trim s = rev (dropWhile isSpace (rev (dropWhile isSpace s)))"

definition toLowerCase :: "string \<Rightarrow> string" where
  "toLowerCase s =
     map (\<lambda>c. if 65 \<le> (of_char c :: nat) \<and> (of_char c :: nat) \<le> 90
              then char_of ((of_char c :: nat) + 32) else c) s"

definition findByEmail :: "client list \<Rightarrow> string \<Rightarrow> client option" where
  "findByEmail cs email =
     (if email = [] \<or> length email > 100 then None
      else find (\<lambda>c. c_email c = take 100 (toLowerCase (trim email))) cs)"

definition freshId :: "nat list \<Rightarrow> nat" where
  \<comment> \<open>a new \<open>ObjectId\<close>: one that no stored document has\<close>
  "freshId ks = Suc (foldr max ks 0)"

fun removeFirst :: "('a \<Rightarrow> bool) \<Rightarrow> 'a list \<Rightarrow> 'a list" where
  "removeFirst P [] = []"
| "removeFirst P (x # xs) = (if P x then xs else x # removeFirst P xs)"

definition deleteOneLock :: "int \<Rightarrow> string \<Rightarrow> int \<Rightarrow> string \<Rightarrow> timeLock list \<Rightarrow> timeLock list" where
  \<comment> \<open>\<open>TimeLock.deleteOne({date, time, serviceId, lockedBy})\<close>\<close>
  "deleteOneLock d time serviceId sessionID ls =
     removeFirst (\<lambda>l. l_date l = d \<and> l_time l = time \<and> l_serviceId l = serviceId
                       \<and> l_lockedBy l = sessionID) ls"

record usage =
  u_success :: bool
  u_remaining :: "int option"

definition getBookingEmailUsage :: "store \<Rightarrow> nat \<Rightarrow> usage" where
  \<comment> \<open>the object it returns has no field \<open>remaining\<close>\<close>
  "getBookingEmailUsage st k =
     \<lparr>u_success = (findBooking (bookings st) k \<noteq> None), u_remaining = None\<rparr>"

definition getDailyEmailUsage :: "string \<Rightarrow> usage" where
  "getDailyEmailUsage email =
     \<lparr>u_success = (email \<noteq> [] \<and> length email \<le> 100), u_remaining = None\<rparr>"

definition quotaExhausted :: "usage \<Rightarrow> bool" where
  \<comment> \<open>\<open>!usage.success || usage.remaining <= 0\<close>; an undefined \<open>remaining\<close> compares false\<close>
  "quotaExhausted u =
     (\<not> u_success u \<or> (case u_remaining u of None \<Rightarrow> False | Some r \<Rightarrow> r \<le> 0))"

definition orDefault :: "string \<Rightarrow> string \<Rightarrow> string" where
  \<comment> \<open>\<open>s || dflt\<close>\<close>
  "orDefault s dflt = (if s = [] then dflt else s)"

definition fullPhoneNumber :: "string \<Rightarrow> string \<Rightarrow> string" where
  "fullPhoneNumber countryCode phoneNumber =
     (if countryCode \<noteq> [] \<and> phoneNumber \<noteq> []
      then countryCode @ (case phoneNumber of c # cs \<Rightarrow> (if c = CHR ''0'' then cs else c # cs)
                                            | [] \<Rightarrow> [])
      else phoneNumber)"

definition newClient :: "int \<Rightarrow> nat \<Rightarrow> string \<Rightarrow> string \<Rightarrow> string \<Rightarrow> string \<Rightarrow> client" where
  "newClient now k name phone email countryCode =
     \<lparr>c_id = k, c_name = trim name, c_phoneNumber = trim phone,
      c_email = toLowerCase (trim email), c_countryCode = trim countryCode,
      c_isBlocked = False, c_blockReason = None, c_blockDate = None, c_createdAt = now,
      c_lastVisit = None, c_totalBookings = 0, c_completedBookings = 0, c_emailsSent = 0,
      c_lastEmailSentAt = None, c_lastModified = now\<rparr>"

definition findOrCreateClient :: "env \<Rightarrow> store \<Rightarrow> completeReq \<Rightarrow> response + (nat \<times> store)" where
  \<comment> \<open>the client of the booking: found by email and brought up to date, or created\<close>
  "findOrCreateClient ev st q =
     (let phone = fullPhoneNumber (q_countryCode q) (q_phoneNumber q)
      in case findByEmail (clients st) (q_email q) of
           Some c \<Rightarrow>
             if c_isBlocked c then Inl (Failure 403 ClientIsBlocked NoPayload)
             else if c_name c \<noteq> q_clientName q \<or> c_phoneNumber c \<noteq> phone
             then Inr (c_id c,
                       st\<lparr>clients :=
                         saveClient (e_now ev) (c_id c)
                           (\<lambda>x. x\<lparr>c_name := trim (q_clientName q), c_phoneNumber := trim phone,
                                  c_countryCode := trim (orDefault (q_countryCode q) ''+40'')\<rparr>)
                           (clients st)\<rparr>)
             else Inr (c_id c, st)
         | None \<Rightarrow>
             let k = freshId (map c_id (clients st))
             in Inr (k, st\<lparr>clients := clients st
                          @ [newClient (e_now ev) k (q_clientName q) phone (q_email q)
                               (orDefault (q_countryCode q) ''+40'')]\<rparr>))"

definition newBooking :: "env \<Rightarrow> nat \<Rightarrow> nat \<Rightarrow> completeReq \<Rightarrow> int \<Rightarrow> int \<Rightarrow> string \<Rightarrow> booking" where
  "newBooking ev k clientId q serviceId d time =
     \<lparr>b_id = k, b_client = Some clientId, b_clientName = trim (q_clientName q),
      b_phoneNumber = trim (fullPhoneNumber (q_countryCode q) (q_phoneNumber q)),
      b_email = toLowerCase (trim (q_email q)), b_service = serviceId, b_date = d,
      b_time = time, b_status = Pending, b_verificationCode = e_code ev, b_verified = False,
      b_emailCount = 0, b_lastEmailSentAt = None, b_createdAt = e_now ev,
      b_completedAt = None, b_notes = None,
      b_countryCode = trim (orDefault (q_countryCode q) ''+40'')\<rparr>"

definition storeBooking :: "env \<Rightarrow> store \<Rightarrow> nat \<Rightarrow> completeReq \<Rightarrow> int \<Rightarrow> int \<Rightarrow> string \<Rightarrow> response \<times> store" where
  \<comment> \<open>\<open>completeBooking\<close> from \<open>new Booking\<close> on: save, release of the lock, the
      counter of the client, the verification mail and the rollback when it fails. A
      \<open>client.save()\<close> that is refused throws, and the handler answers 500 with what
      was written before it\<close>
  "storeBooking ev st clientId q serviceId d time =
     (let k = freshId (map b_id (bookings st));
          st1 = st\<lparr>bookings := bookings st @ [newBooking ev k clientId q serviceId d time]\<rparr>;
          st2 = st1\<lparr>locks := deleteOneLock d time serviceId (q_sessionID q) (locks st1)\<rparr>
      in case saveClientChecked (e_now ev) clientId
                (\<lambda>x. x\<lparr>c_totalBookings := c_totalBookings x + 1\<rparr>) (clients st2) of
           None \<Rightarrow> (Failure 500 InternalError NoPayload, st2)
         | Some cs3 \<Rightarrow>
             let st3 = st2\<lparr>clients := cs3\<rparr>
             in if \<not> e_mail ev k
                then (let st4 = st3\<lparr>bookings := deleteBooking k (bookings st3)\<rparr>
                      in case saveClientChecked (e_now ev) clientId
                                (\<lambda>x. x\<lparr>c_totalBookings := c_totalBookings x - 1\<rparr>) (clients st4) of
                           None \<Rightarrow> (Failure 500 InternalError NoPayload, st4)
                         | Some cs5 \<Rightarrow>
                             (Failure 500 VerificationNotSent NoPayload, st4\<lparr>clients := cs5\<rparr>))
                else (Success (BookingRef k),
                      st3\<lparr>clients := incrementEmailCounter (e_now ev) clientId (clients st3)\<rparr>))"

definition resolveRequest :: "env \<Rightarrow> completeReq \<Rightarrow> response + (int \<times> int \<times> string)" where
  \<comment> \<open>the first part of \<open>completeBooking\<close>, which reads no stored document: service,
      date and time from the request or else from the session, and the checks on them\<close>
  "resolveRequest ev q =
     (let truthy = (\<lambda>x. case x of None \<Rightarrow> None | Some (k::int) \<Rightarrow> if k = 0 then None else Some k);
          sessionExpired =
            (case q_session q of
               None \<Rightarrow> False
             | Some sd \<Rightarrow> (case sd_expiry sd of
                            None \<Rightarrow> False
                          | Some x \<Rightarrow> x \<noteq> 0 \<and> e_now ev > x));
          bookingServiceId =
            (case truthy (q_serviceId q) of
               Some k \<Rightarrow> Some k
             | None \<Rightarrow> (case q_session q of None \<Rightarrow> None | Some sd \<Rightarrow> truthy (Some (sd_serviceId sd))));
          bookingDate =
            (case q_date q of
               Some x \<Rightarrow> Some x
             | None \<Rightarrow> (case q_session q of None \<Rightarrow> None | Some sd \<Rightarrow> Some (sd_date sd)));
          bookingTime =
            (if q_time q \<noteq> [] then q_time q
             else (case q_session q of None \<Rightarrow> [] | Some sd \<Rightarrow> sd_time sd))
      in if sessionExpired then Inl (Failure 400 SessionExpired NoPayload)
         else case bookingServiceId of
           None \<Rightarrow> Inl (Failure 400 ServiceRequired NoPayload)
         | Some serviceId \<Rightarrow>
            (case bookingDate of
               None \<Rightarrow> Inl (Failure 400 DateRequired NoPayload)
             | Some d \<Rightarrow>
                 if bookingTime = [] then Inl (Failure 400 TimeRequired NoPayload)
                 else if q_email q = [] then Inl (Failure 400 EmailRequired NoPayload)
                 else if d < startOfDay (e_now ev) then Inl (Failure 400 PastDate NoPayload)
                 else if d > startOfDay (e_now ev + 30 * msPerDay)
                 then Inl (Failure 400 TooFarAhead NoPayload)
                 else Inr (serviceId, d, bookingTime)))"

definition submitBooking :: "env \<Rightarrow> store \<Rightarrow> completeReq \<Rightarrow> int \<Rightarrow> int \<Rightarrow> string \<Rightarrow> response \<times> store" where
  \<comment> \<open>the second part: the service, the rate limiter, the client, the daily mail quota,
      and then the booking itself\<close>
  "submitBooking ev st q serviceId d time =
     (case lookupService (e_now ev) st serviceId of
        (None, st1) \<Rightarrow> (Failure 404 ServiceNotFound NoPayload, st1)
      | (Some sv, st1) \<Rightarrow>
          if \<not> e_rateOk ev then (Failure 429 TooManyAttempts NoPayload, st1)
          else (case findOrCreateClient ev st1 q of
                  Inl r \<Rightarrow> (r, st1)
                | Inr (clientId, st2) \<Rightarrow>
                    if quotaExhausted (getDailyEmailUsage (q_email q))
                    then (Failure 429 DailyEmailLimit NoPayload, st2)
                    else storeBooking ev st2 clientId q serviceId d time))"

definition completeBooking :: "env \<Rightarrow> store \<Rightarrow> completeReq \<Rightarrow> response \<times> store" where
  "completeBooking ev st q =
     (case resolveRequest ev q of
        Inl r \<Rightarrow> (r, st)
      | Inr (serviceId, d, time) \<Rightarrow> submitBooking ev st q serviceId d time)"

section \<open>Staff and client operations on a booking\<close>

definition setStatus :: "nat \<Rightarrow> status \<Rightarrow> store \<Rightarrow> store" where
  \<comment> \<open>\<open>booking.status = s; await booking.save()\<close>\<close>
  "setStatus k s st = st\<lparr>bookings := updateBooking k (\<lambda>b. b\<lparr>b_status := s\<rparr>) (bookings st)\<rparr>"

definition decideBooking :: "status \<Rightarrow> env \<Rightarrow> store \<Rightarrow> nat \<Rightarrow> response \<times> store" where
  \<comment> \<open>\<open>confirmBooking\<close> and \<open>declineBooking\<close> are the same code up to the status they
      set and the mail they send\<close>
  "decideBooking s ev st bookingId =
     (case findBooking (bookings st) bookingId of
        None \<Rightarrow> (Failure 404 BookingNotFound NoPayload, st)
      | Some b \<Rightarrow>
          (case findService (services st) (b_service b) of
             None \<Rightarrow> (Failure 404 ServiceNotFound NoPayload, st)
           | Some sv \<Rightarrow>
               if quotaExhausted (getBookingEmailUsage st bookingId)
               then (Success (EmailReport EmailLimited), setStatus bookingId s st)
               else if quotaExhausted (getDailyEmailUsage (b_email b))
               then (Success (EmailReport EmailLimited), setStatus bookingId s st)
               else let sent = e_mail ev bookingId;
                        st1 = setStatus bookingId s st;
                        st2 = (case populateClient st b of
                                 None \<Rightarrow> st1
                               | Some c \<Rightarrow>
                                   if sent
                                   then st1\<lparr>clients :=
                                          incrementEmailCounter (e_now ev) (c_id c) (clients st1)\<rparr>
                                   else st1)
                    in (Success (EmailReport (if sent then EmailSent else EmailFailed)), st2)))"

definition confirmBooking :: "env \<Rightarrow> store \<Rightarrow> nat \<Rightarrow> response \<times> store" where
  "confirmBooking = decideBooking Confirmed"

definition declineBooking :: "env \<Rightarrow> store \<Rightarrow> nat \<Rightarrow> response \<times> store" where
  "declineBooking = decideBooking Declined"

definition block :: "int \<Rightarrow> string \<Rightarrow> client \<Rightarrow> client" where
  \<comment> \<open>\<open>client.block(reason)\<close>, before its save\<close>
  "block now reason c =
     c\<lparr>c_isBlocked := True,
       c_blockReason := Some (orDefault (if length reason > 200 then take 200 reason else reason)
                                ''No reason provided''),
       c_blockDate := Some now\<rparr>"

definition blockClientOf :: "env \<Rightarrow> store \<Rightarrow> booking \<Rightarrow> string \<Rightarrow> store" where
  "blockClientOf ev st b reason =
     (let r = orDefault reason ''No reason provided''
      in case populateClient st b of
           Some c \<Rightarrow> st\<lparr>clients := saveClient (e_now ev) (c_id c) (block (e_now ev) r) (clients st)\<rparr>
         | None \<Rightarrow>
             (case findByEmail (clients st) (b_email b) of
                Some c \<Rightarrow>
                  st\<lparr>clients := saveClient (e_now ev) (c_id c) (block (e_now ev) r) (clients st)\<rparr>
              | None \<Rightarrow>
                  st\<lparr>clients := clients st
                    @ [block (e_now ev) r
                         (newClient (e_now ev) (freshId (map c_id (clients st))) (b_clientName b)
                            (b_phoneNumber b) (b_email b) (orDefault (b_countryCode b) ''+40''))]\<rparr>))"

definition blockUser :: "env \<Rightarrow> store \<Rightarrow> nat \<Rightarrow> string \<Rightarrow> response \<times> store" where
  "blockUser ev st bookingId reason =
     (case findBooking (bookings st) bookingId of
        None \<Rightarrow> (Failure 404 BookingNotFound NoPayload, st)
      | Some b \<Rightarrow>
          let st0 = blockClientOf ev st b reason
          in if quotaExhausted (getBookingEmailUsage st0 bookingId)
             then (Success (EmailReport EmailLimited), setStatus bookingId Declined st0)
             else if quotaExhausted (getDailyEmailUsage (b_email b))
             then (Success (EmailReport EmailLimited), setStatus bookingId Declined st0)
             else (case findService (services st0) (b_service b) of
                     None \<Rightarrow> (Success (EmailReport EmailFailed), setStatus bookingId Declined st0)
                   | Some sv \<Rightarrow>
                       let sent = e_mail ev bookingId;
                           st1 = setStatus bookingId Declined st0;
                           st2 = (case populateClient st b of
                                    None \<Rightarrow> st1
                                  | Some c \<Rightarrow>
                                      if sent
                                      then st1\<lparr>clients :=
                                             incrementEmailCounter (e_now ev) (c_id c) (clients st1)\<rparr>
                                      else st1)
                       in (Success (EmailReport (if sent then EmailSent else EmailFailed)), st2)))"

definition completeBookingService :: "env \<Rightarrow> store \<Rightarrow> nat \<Rightarrow> response \<times> store" where
  \<comment> \<open>for a \<open>bookingId\<close> that is a well-formed \<open>ObjectId\<close>. The booking is saved
      first; when the save of its client is refused the handler answers 500 with the
      booking already completed\<close>
  "completeBookingService ev st bookingId =
     (case findBooking (bookings st) bookingId of
        None \<Rightarrow> (Failure 404 BookingNotFound NoPayload, st)
      | Some b \<Rightarrow>
          if b_status b \<noteq> Confirmed then (Failure 400 (CannotComplete (b_status b)) NoPayload, st)
          else let st1 = st\<lparr>bookings :=
                           updateBooking bookingId
                             (\<lambda>x. x\<lparr>b_status := Completed, b_completedAt := Some (e_now ev)\<rparr>)
                             (bookings st)\<rparr>
               in case populateClient st b of
                    None \<Rightarrow> (Success (BookingRef bookingId), st1)
                  | Some c \<Rightarrow>
                      (case saveClientChecked (e_now ev) (c_id c)
                              (\<lambda>x. x\<lparr>c_completedBookings := c_completedBookings x + 1,
                                     c_lastVisit := Some (e_now ev)\<rparr>)
                              (clients st1) of
                         None \<Rightarrow> (Failure 500 InternalError NoPayload, st1)
                       | Some cs \<Rightarrow> (Success (BookingRef bookingId), st1\<lparr>clients := cs\<rparr>)))"

definition suspendBooking :: "env \<Rightarrow> store \<Rightarrow> nat \<Rightarrow> string \<Rightarrow> response \<times> store" where
  "suspendBooking ev st bookingId sessionID =
     (case findBooking (bookings st) bookingId of
        None \<Rightarrow> (Failure 404 BookingNotFound NoPayload, st)
      | Some b \<Rightarrow>
          if b_status b = Confirmed then (Failure 400 CannotSuspendConfirmed NoPayload, st)
          else (Success NoPayload,
                setStatus bookingId Cancelled
                  (st\<lparr>locks := deleteOneLock (b_date b) (b_time b) (b_service b) sessionID
                                  (locks st)\<rparr>)))"

section \<open>Blocking a date (controllers/blockedDatesController.js)\<close>

record bookingCheck =
  bc_hasConflict :: bool
  bc_conflictingBookings :: "conflictInfo list"

definition bookingsOfDay :: "store \<Rightarrow> int \<Rightarrow> booking list" where
  \<comment> \<open>the query of \<open>checkExistingBookings\<close>\<close>
  "bookingsOfDay st d =
     filter (\<lambda>b. startOfDay d \<le> b_date b \<and> b_date b \<le> endOfDay d
                 \<and> (b_status b = Confirmed \<or> b_status b = Pending))
       (bookings st)"

definition fullDayInfo :: "store \<Rightarrow> booking \<Rightarrow> conflictInfo" where
  "fullDayInfo st b =
     \<lparr>ci_id = b_id b, ci_clientName = b_clientName b, ci_time = b_time b,
      ci_service = (case findService (services st) (b_service b) of
                      None \<Rightarrow> ''Unknown Service'' | Some sv \<Rightarrow> s_name sv),
      ci_status = b_status b, ci_conflictingHour = None\<rparr>"

definition hourOverlaps :: "service \<Rightarrow> booking \<Rightarrow> string \<Rightarrow> bool" where
  \<comment> \<open>the test of the inner loop: the blocked hour stands for a slot of 30 minutes\<close>
  "hourOverlaps sv b hour =
     (case (parseTime (b_time b), parseTime hour) of
        (Some bt, Some ht) \<Rightarrow>
          overlaps (timeInMinutes ht) (timeInMinutes ht + 30)
            (timeInMinutes bt) (timeInMinutes bt + s_duration sv)
      | _ \<Rightarrow> False)"

definition hourConflicts :: "store \<Rightarrow> string list \<Rightarrow> booking \<Rightarrow> conflictInfo list" where
  \<comment> \<open>what one booking adds to \<open>conflictingBookings\<close>\<close>
  "hourConflicts st hours b =
     (case findService (services st) (b_service b) of
        None \<Rightarrow> []
      | Some sv \<Rightarrow>
          map (\<lambda>hour. \<lparr>ci_id = b_id b, ci_clientName = b_clientName b, ci_time = b_time b,
                       ci_service = s_name sv, ci_status = b_status b,
                       ci_conflictingHour = Some hour\<rparr>)
            (filter (hourOverlaps sv b) hours))"

definition checkExistingBookings :: "store \<Rightarrow> int \<Rightarrow> bool \<Rightarrow> string list \<Rightarrow> bookingCheck" where
  "checkExistingBookings st d isFullDay hours =
     (let existingBookings = bookingsOfDay st d
      in if existingBookings = []
         then \<lparr>bc_hasConflict = False, bc_conflictingBookings = []\<rparr>
         else if isFullDay
         then \<lparr>bc_hasConflict = True, bc_conflictingBookings = map (fullDayInfo st) existingBookings\<rparr>
         else let conflictingBookings = concat (map (hourConflicts st hours) existingBookings)
              in if conflictingBookings \<noteq> []
                 then \<lparr>bc_hasConflict = True, bc_conflictingBookings = conflictingBookings\<rparr>
                 else \<lparr>bc_hasConflict = False, bc_conflictingBookings = []\<rparr>)"

definition dedupe :: "string list \<Rightarrow> string list" where
  \<comment> \<open>\<open>[...new Set(hours)]\<close>: the first occurrence of each hour, in order\<close>
  "dedupe hs = rev (remdups (rev hs))"

definition automaticReason :: "env \<Rightarrow> bool \<Rightarrow> int \<Rightarrow> string" where
  "automaticReason ev isFullDay d =
     (if isFullDay then ''Suntem inchisi in '' @ e_dayName ev d
      else ''Anumite ore sunt indisponibile in '' @ e_dayName ev d)"

definition hourInSchedule :: "string \<Rightarrow> bool" where
  \<comment> \<open>the validator of \<open>blockedHours\<close>: 10:00 to 19:00\<close>
  "hourInSchedule h =
     (case parseTime h of
        None \<Rightarrow> False
      | Some hm \<Rightarrow> timeInMinutes hm \<ge> 600 \<and> timeInMinutes hm \<le> 1140)"

record blockReq =
  r_date :: "int option"
  r_isFullDay :: bool
  r_hours :: "string list"
  r_user :: nat

definition saveBlock :: "env \<Rightarrow> store \<Rightarrow> int \<Rightarrow> blockReq \<Rightarrow> response \<times> store" where
  \<comment> \<open>\<open>blockDate\<close> after the conflict check: the block of the day is updated, or
      created; a save the schema refuses is the error of the handler\<close>
  "saveBlock ev st d rq =
     (let hs = (if r_isFullDay rq then [] else dedupe (r_hours rq))
      in if \<not> list_all hourInSchedule hs then (Failure 500 InternalError NoPayload, st)
         else case findBlockedDate st d of
           Some bd \<Rightarrow>
             (Success NoPayload,
              st\<lparr>blockedDates :=
                map (\<lambda>x. if bd_id x = bd_id bd
                         then x\<lparr>bd_isFullDayBlocked := r_isFullDay rq, bd_blockedHours := hs,
                                bd_reason := automaticReason ev (r_isFullDay rq) d,
                                bd_createdBy := r_user rq, bd_updatedAt := e_now ev\<rparr>
                         else x) (blockedDates st)\<rparr>)
         | None \<Rightarrow>
             (Success NoPayload,
              st\<lparr>blockedDates := blockedDates st
                @ [\<lparr>bd_id = freshId (map bd_id (blockedDates st)), bd_date = d,
                     bd_isFullDayBlocked = r_isFullDay rq, bd_blockedHours = hs,
                     bd_reason = automaticReason ev (r_isFullDay rq) d,
                     bd_createdBy = r_user rq, bd_createdAt = e_now ev,
                     bd_updatedAt = e_now ev\<rparr>]\<rparr>))"

definition validateBlock :: "env \<Rightarrow> blockReq \<Rightarrow> response + int" where
  \<comment> \<open>the input checks of \<open>blockDate\<close>; they end with the selected date at 0:00\<close>
  "validateBlock ev rq =
     (case r_date rq of
        None \<Rightarrow> Inl (Failure 400 DateRequired NoPayload)
      | Some date \<Rightarrow>
          if \<not> r_isFullDay rq \<and> r_hours rq = [] then Inl (Failure 400 HoursRequired NoPayload)
          else if startOfDay date < startOfDay (e_now ev) then Inl (Failure 400 PastDate NoPayload)
          else (case (if r_isFullDay rq then None
                      else find (\<lambda>h. parseTime h = None) (r_hours rq)) of
                  Some h \<Rightarrow> Inl (Failure 400 (InvalidHour h) NoPayload)
                | None \<Rightarrow>
                    if \<not> r_isFullDay rq \<and> length (r_hours rq) > 20
                    then Inl (Failure 400 TooManyHours NoPayload)
                    else Inr (startOfDay date)))"

definition blockDate :: "env \<Rightarrow> store \<Rightarrow> blockReq \<Rightarrow> response \<times> store" where
  "blockDate ev st rq =
     (case validateBlock ev rq of
        Inl r \<Rightarrow> (r, st)
      | Inr selectedDate \<Rightarrow>
          let bookingCheck = checkExistingBookings st selectedDate (r_isFullDay rq) (r_hours rq)
          in if bc_hasConflict bookingCheck
             then (Failure 409 BlockConflict (Conflicts (bc_conflictingBookings bookingCheck)), st)
             else saveBlock ev st selectedDate rq)"

section \<open>Example states\<close>

text \<open>
  A Monday (5 January 1970), the service \<open>Tuns\<close> of 30 minutes, one client and
  one verified pending booking at 10:00.
\<close>

definition exService :: service where
  "exService = \<lparr>s_id = 1, s_name = ''Tuns'', s_duration = 30, s_price = 80\<rparr>"

definition exDay :: int where
  "exDay = 345600000"

definition exBooking :: booking where
  "exBooking = \<lparr>b_id = 1, b_client = Some 1, b_clientName = ''Ana'',
     b_phoneNumber = ''+40700000000'', b_email = ''ana@example.com'', b_service = 1,
     b_date = exDay, b_time = ''10:00'', b_status = Pending, b_verificationCode = ''123456'',
     b_verified = True, b_emailCount = 0, b_lastEmailSentAt = None, b_createdAt = 0,
     b_completedAt = None, b_notes = None, b_countryCode = ''+40''\<rparr>"

definition exClient :: client where
  "exClient = \<lparr>c_id = 1, c_name = ''Ana'', c_phoneNumber = ''+40700000000'',
     c_email = ''ana@example.com'', c_countryCode = ''+40'', c_isBlocked = False,
     c_blockReason = None, c_blockDate = None, c_createdAt = 0, c_lastVisit = None,
     c_totalBookings = 1, c_completedBookings = 0, c_emailsSent = 1,
     c_lastEmailSentAt = None, c_lastModified = 0\<rparr>"

definition exStore :: store where
  "exStore = \<lparr>services = [exService], bookings = [exBooking], clients = [exClient],
     locks = [], blockedDates = [], cacheServices = [], cacheLastUpdated = 0\<rparr>"

definition exEnv :: env where
  \<comment> \<open>Tuesday 6 January 1970, 12:00; every mail goes out\<close>
  "exEnv = \<lparr>e_now = 475200000, e_mail = (\<lambda>k. True), e_iso = (\<lambda>t. ''1970-01-06T12:00:00.000Z''),
     e_code = ''123456'', e_rateOk = True, e_dayName = (\<lambda>d. ''Luni, 5 Ianuarie 1970'')\<rparr>"

definition exConfirmedStore :: store where
  \<comment> \<open>the same state with the booking confirmed\<close>
  "exConfirmedStore = exStore\<lparr>bookings := [exBooking\<lparr>b_status := Confirmed\<rparr>]\<rparr>"

definition exDeclinedStore :: store where
  "exDeclinedStore = exStore\<lparr>bookings := [exBooking\<lparr>b_status := Declined\<rparr>]\<rparr>"

definition exLock :: timeLock where
  "exLock = \<lparr>l_date = exDay, l_time = ''14:00'', l_serviceId = 1, l_lockedBy = ''sessionA'',
     l_lockedAt = 0\<rparr>"

definition exLockedStore :: store where
  \<comment> \<open>the example state with the slot at 14:00 claimed by another session\<close>
  "exLockedStore = exStore\<lparr>locks := [exLock]\<rparr>"

abbreviation totalsKept :: "client list \<Rightarrow> client list \<Rightarrow> bool" where
  "totalsKept cs cs' \<equiv>
     \<forall>kc cl. findClient cs kc = Some cl \<longrightarrow>
       (\<exists>cl'. findClient cs' kc = Some cl' \<and> c_totalBookings cl' = c_totalBookings cl)"

definition exReq :: completeReq where
  "exReq = \<lparr>q_clientName = ''Ana'', q_phoneNumber = ''0700000000'', q_email = ''ana@example.com'',
     q_countryCode = ''+40'', q_serviceId = Some 1, q_date = Some 518400000, q_time = ''11:00'',
     q_session = None, q_sessionID = ''sessionA''\<rparr>"

definition exEnvNoMail :: env where
  \<comment> \<open>the same moment, with no mail going out\<close>
  "exEnvNoMail = exEnv\<lparr>e_mail := (\<lambda>k. False)\<rparr>"

abbreviation declinedBySweep :: "env \<Rightarrow> booking \<Rightarrow> booking" where
  "declinedBySweep ev \<equiv> (\<lambda>x. x\<lparr>b_status := Declined, b_notes := Some (autoDeclineNote ev)\<rparr>)"


definition exBlockReq :: blockReq where
  \<comment> \<open>a full-day block of the example Monday\<close>
  "exBlockReq = \<lparr>r_date = Some exDay, r_isFullDay = True, r_hours = [], r_user = 7\<rparr>"

definition exEarlyEnv :: env where
  \<comment> \<open>Sunday 4 January 1970, 12:00\<close>
  "exEarlyEnv = exEnv\<lparr>e_now := 302400000\<rparr>"

abbreviation sameRest :: "store \<Rightarrow> store \<Rightarrow> bool" where
  "sameRest st st' \<equiv>
     (services st' = services st \<and> locks st' = locks st \<and> blockedDates st' = blockedDates st
      \<and> cacheServices st' = cacheServices st \<and> cacheLastUpdated st' = cacheLastUpdated st)"

definition exFreshStore :: store where
  \<comment> \<open>a state the sweep has nothing to do on, with the service cache just filled\<close>
  "exFreshStore = exConfirmedStore\<lparr>cacheServices := [exService], cacheLastUpdated := 475200000\<rparr>"

definition exBusyClient :: client where
  \<comment> \<open>the example client after a thousand bookings, all of them completed\<close>
  "exBusyClient = exClient\<lparr>c_totalBookings := 1000, c_completedBookings := 1000\<rparr>"

definition exCapStore :: store where
  \<comment> \<open>the confirmed booking of the example, of that client\<close>
  "exCapStore = exConfirmedStore\<lparr>clients := [exBusyClient]\<rparr>"

definition exFullStore :: store where
  \<comment> \<open>the example state with that client\<close>
  "exFullStore = exStore\<lparr>clients := [exBusyClient]\<rparr>"

definition exShort :: service where
  \<comment> \<open>a second service, of five minutes\<close>
  "exShort = \<lparr>s_id = 2, s_name = ''Contur'', s_duration = 5, s_price = 20\<rparr>"

definition exQuickBooking :: "nat \<Rightarrow> booking" where
  \<comment> \<open>confirmed bookings of five minutes that fill the example Monday from 10:00 on,
      one after the other\<close>
  "exQuickBooking k =
     exBooking\<lparr>b_id := k + 2, b_service := 2,
               b_time := slotTime ((600 + 5 * k) div 60, (600 + 5 * k) mod 60),
               b_status := Confirmed\<rparr>"

definition exLateBooking :: booking where
  "exLateBooking = exBooking\<lparr>b_id := 52, b_time := ''14:30'', b_status := Confirmed\<rparr>"

definition exCrowdedStore :: store where
  \<comment> \<open>fifty of them, from 10:00 to 14:10, and then a booking of 30 minutes at 14:30\<close>
  "exCrowdedStore =
     exStore\<lparr>services := [exService, exShort],
             bookings := map exQuickBooking [0 ..< 50] @ [exLateBooking]\<rparr>"

definition exLateStore :: store where
  \<comment> \<open>the example state with its booking at 11:00\<close>
  "exLateStore = exStore\<lparr>bookings := [exBooking\<lparr>b_time := ''11:00''\<rparr>]\<rparr>"





section \<open>Facts about the time arithmetic and the overlap test\<close>

lemmas time_defs = dateTimeOf_def startOfDay_def endOfDay_def msPerDay_def msPerMinute_def
  timeInMinutes_def isDigit_def digitVal_def getDay_def onDate_def

lemma msPerMinute_pos: "0 < d \<Longrightarrow> 0 < d * msPerMinute"
  by (simp add: msPerMinute_def)

lemma overlaps_half_open:
  "s < e \<Longrightarrow> s2 < e2 \<Longrightarrow> overlaps s e s2 e2 = (s < e2 \<and> s2 < e)"
  unfolding overlaps_def by auto

lemma findService_mem: "findService ss k = Some sv \<Longrightarrow> sv \<in> set ss"
  unfolding findService_def by (auto simp: find_Some_iff)

lemma bookingLoop_iff:
  "bookingLoop ss s e bs \<longleftrightarrow>
     (\<exists>b\<in>set bs. \<exists>sv t. findService ss (b_service b) = Some sv
        \<and> dateTimeOf (b_date b) (b_time b) = Some t
        \<and> overlaps s e t (t + s_duration sv * msPerMinute))"
  by (induction bs) (auto split: option.splits)



section \<open>The overlap test of the availability check\<close>


lemma isTimeSlotAvailable_without_bookings:
  assumes "dateTimeOf d time = Some s1"
  shows "isTimeSlotAvailable st d time du
           \<longleftrightarrow> isTimeSlotAvailable (st\<lparr>bookings := []\<rparr>) d time du
               \<and> \<not> bookingLoop (services st) s1 (s1 + du * msPerMinute) (overlappingBookings st d)"
proof -
  have a: "activeLocks (st\<lparr>bookings := []\<rparr>) d = activeLocks st d"
    by (simp add: activeLocks_def)
  have b: "isDateTimeBlocked (st\<lparr>bookings := []\<rparr>) d x = isDateTimeBlocked st d x" for x
    by (simp add: isDateTimeBlocked_def findBlockedDate_def)
  have c: "overlappingBookings (st\<lparr>bookings := []\<rparr>) d = []"
    by (simp add: overlappingBookings_def)
  show ?thesis
    using assms unfolding isTimeSlotAvailable_def dateTimeOf_def a b c
    by (auto simp: Let_def split: option.splits)
qed

lemma parseTime_slotTime:
  assumes "h < 24" and "m < 60"
  shows "parseTime (slotTime (h, m)) = Some (h, m)"
proof -
  have d: "h div 10 \<le> 1 \<or> (h div 10 = 2 \<and> h mod 10 \<le> 3)" "m div 10 \<le> 5"
    using assms by presburger+
  have b: "(48 + h div 10) mod 256 = 48 + h div 10" "(48 + h mod 10) mod 256 = 48 + h mod 10"
    "(48 + m div 10) mod 256 = 48 + m div 10" "(48 + m mod 10) mod 256 = 48 + m mod 10"
    using assms by auto
  have e: "h mod 10 \<le> 9 \<and> h div 10 \<le> 9 \<and> m mod 10 \<le> 9"
    using assms by presburger
  show ?thesis
    using d e by (simp add: slotTime_def pad2_def isDigit_def digitVal_def b)
qed

lemma dateTimeOf_slotTime:
  assumes "k < 50"
  shows "dateTimeOf d (slotTime ((600 + 5 * k) div 60, (600 + 5 * k) mod 60))
           = Some (startOfDay d + (600 + 5 * int k) * msPerMinute)"
proof -
  have "(600 + 5 * k) div 60 < 24" using assms by simp
  then have p: "parseTime (slotTime ((600 + 5 * k) div 60, (600 + 5 * k) mod 60))
                  = Some ((600 + 5 * k) div 60, (600 + 5 * k) mod 60)"
    by (intro parseTime_slotTime) simp_all
  have "int (a div 60) * 60 + int (a mod 60) = int a" for a :: nat
    by presburger
  from this [of "600 + 5 * k"]
  have "timeInMinutes ((600 + 5 * k) div 60, (600 + 5 * k) mod 60) = 600 + 5 * int k"
    by (simp add: timeInMinutes_def)
  with p show ?thesis by (simp add: dateTimeOf_def)
qed
lemma isTimeSlotAvailable_open_day:
  assumes start: "dateTimeOf d time = Some s1"
    and dur: "0 < du" "du \<le> 240"
    and day: "getDay d \<noteq> 0"
    and opens: "startOfDay d + 600 * msPerMinute \<le> s1"
    and closes: "s1 + du * msPerMinute
                   \<le> startOfDay d + (if getDay d = 6 then 780 else 1140) * msPerMinute"
    and noblock: "\<forall>x\<in>set (blockedDates st). \<not> (startOfDay d \<le> bd_date x \<and> bd_date x \<le> endOfDay d)"
  shows "isTimeSlotAvailable st d time du
           \<longleftrightarrow> \<not> lockLoop (services st) s1 (s1 + du * msPerMinute) (activeLocks st d)
               \<and> \<not> bookingLoop (services st) s1 (s1 + du * msPerMinute) (overlappingBookings st d)"
proof -
  obtain hm where hm: "parseTime time = Some hm"
    and s1: "s1 = startOfDay d + timeInMinutes hm * msPerMinute"
    using start by (auto simp: dateTimeOf_def split: option.splits)
  have ne: "time \<noteq> []" using hm by auto
  have lo: "600 \<le> timeInMinutes hm" using opens s1 by (simp add: msPerMinute_def)
  have hi: "timeInMinutes hm + du \<le> (if getDay d = 6 then 780 else 1140)"
    using closes s1 by (simp add: msPerMinute_def split: if_splits)
  have f: "findBlockedDate st d = None"
    using noblock by (simp add: findBlockedDate_def find_None_iff)
  have b: "\<not> bi_isBlocked (isDateTimeBlocked st d x)" for x
    by (simp add: isDateTimeBlocked_def f notBlocked_def)
  show ?thesis
    unfolding isTimeSlotAvailable_def using ne dur hm day lo hi
    by (simp add: Let_def b s1 split: if_splits)
qed

lemma isTimeSlotAvailable_free_day:
  assumes start: "dateTimeOf d time = Some s1"
    and dur: "0 < du" "du \<le> 240"
    and day: "getDay d \<noteq> 0"
    and opens: "startOfDay d + 600 * msPerMinute \<le> s1"
    and closes: "s1 + du * msPerMinute
                   \<le> startOfDay d + (if getDay d = 6 then 780 else 1140) * msPerMinute"
    and nolock: "\<forall>l\<in>set (locks st). \<not> onDate d (l_date l)"
    and noblock: "\<forall>x\<in>set (blockedDates st). \<not> (startOfDay d \<le> bd_date x \<and> bd_date x \<le> endOfDay d)"
  shows "isTimeSlotAvailable (st\<lparr>bookings := []\<rparr>) d time du"
proof -
  obtain hm where hm: "parseTime time = Some hm"
    and s1: "s1 = startOfDay d + timeInMinutes hm * msPerMinute"
    using start by (auto simp: dateTimeOf_def split: option.splits)
  have ne: "time \<noteq> []" using hm by auto
  have lo: "600 \<le> timeInMinutes hm" using opens s1 by (simp add: msPerMinute_def)
  have hi: "timeInMinutes hm + du \<le> (if getDay d = 6 then 780 else 1140)"
    using closes s1 by (simp add: msPerMinute_def split: if_splits)
  have a: "activeLocks (st\<lparr>bookings := []\<rparr>) d = []"
    using nolock by (simp add: activeLocks_def filter_empty_conv)
  have c: "overlappingBookings (st\<lparr>bookings := []\<rparr>) d = []"
    by (simp add: overlappingBookings_def)
  have f: "findBlockedDate (st\<lparr>bookings := []\<rparr>) d = None"
    using noblock by (simp add: findBlockedDate_def find_None_iff)
  have b: "\<not> bi_isBlocked (isDateTimeBlocked (st\<lparr>bookings := []\<rparr>) d x)" for x
    by (simp add: isDateTimeBlocked_def f notBlocked_def)
  show ?thesis
    unfolding isTimeSlotAvailable_def using ne dur hm day lo hi
    by (simp add: Let_def a b c split: if_splits)
qed

text \<open>
  Claim C2, as the code has it. For positive durations the three-way test of
  \<open>isTimeSlotAvailable\<close> is the intersection of half-open intervals: the candidate
  \<open>[s1, s1 + d1)\<close> conflicts with the occupied interval \<open>[s2, s2 + d2)\<close> exactly
  when \<open>s1 < s2 + d2\<close> and \<open>s2 < s1 + d1\<close>. The check reads the first fifty stored
  bookings of the day that are pending or confirmed. A candidate is available exactly
  when it is available in the state without bookings and none of those fifty, with its
  own service's duration, intersects it; when the day has at most fifty such bookings,
  exactly when no stored one does. Bookings that end at or before the start of the
  candidate, or start at or after its end, exclude nothing, so a candidate that only
  touches a booking stays available. In the state without bookings a candidate of at
  most 240 minutes inside the opening hours of a day other than Sunday, with no lock
  and no block on the day, is available.
\<close>

theorem c2_conflict_test_is_half_open_intersection:
  assumes pos1: "0 < d1"
    and pos2: "0 < d2"
    and svc: "\<forall>sv\<in>set (services st). 0 < s_duration sv"
    and start: "dateTimeOf d time = Some s1"
  shows "(overlaps s1 (s1 + d1 * msPerMinute) s2 (s2 + d2 * msPerMinute)
            = (s1 < s2 + d2 * msPerMinute \<and> s2 < s1 + d1 * msPerMinute))
       \<and> (isTimeSlotAvailable st d time d1
            \<longleftrightarrow> isTimeSlotAvailable (st\<lparr>bookings := []\<rparr>) d time d1
                \<and> \<not> (\<exists>b\<in>set (take 50 (filter (\<lambda>b. onDate d (b_date b)
                                    \<and> (b_status b = Pending \<or> b_status b = Confirmed))
                                  (bookings st))).
                       \<exists>sv t. findService (services st) (b_service b) = Some sv
                         \<and> dateTimeOf (b_date b) (b_time b) = Some t
                         \<and> s1 < t + s_duration sv * msPerMinute \<and> t < s1 + d1 * msPerMinute))
       \<and> (length (filter (\<lambda>b. onDate d (b_date b)
                            \<and> (b_status b = Pending \<or> b_status b = Confirmed))
                    (bookings st)) \<le> 50 \<longrightarrow>
            (isTimeSlotAvailable st d time d1
               \<longleftrightarrow> isTimeSlotAvailable (st\<lparr>bookings := []\<rparr>) d time d1
                   \<and> \<not> (\<exists>b\<in>set (bookings st).
                          onDate d (b_date b) \<and> (b_status b = Pending \<or> b_status b = Confirmed)
                          \<and> (\<exists>sv t. findService (services st) (b_service b) = Some sv
                                \<and> dateTimeOf (b_date b) (b_time b) = Some t
                                \<and> s1 < t + s_duration sv * msPerMinute
                                \<and> t < s1 + d1 * msPerMinute))))
       \<and> ((\<forall>b\<in>set (bookings st). \<forall>sv t.
              findService (services st) (b_service b) = Some sv
              \<and> dateTimeOf (b_date b) (b_time b) = Some t
              \<longrightarrow> t + s_duration sv * msPerMinute \<le> s1 \<or> s1 + d1 * msPerMinute \<le> t)
            \<longrightarrow> isTimeSlotAvailable st d time d1
                  = isTimeSlotAvailable (st\<lparr>bookings := []\<rparr>) d time d1)
       \<and> (d1 \<le> 240 \<and> getDay d \<noteq> 0
            \<and> startOfDay d + 600 * msPerMinute \<le> s1
            \<and> s1 + d1 * msPerMinute
                 \<le> startOfDay d + (if getDay d = 6 then 780 else 1140) * msPerMinute
            \<and> (\<forall>l\<in>set (locks st). \<not> onDate d (l_date l))
            \<and> (\<forall>x\<in>set (blockedDates st).
                  \<not> (startOfDay d \<le> bd_date x \<and> bd_date x \<le> endOfDay d))
            \<longrightarrow> isTimeSlotAvailable (st\<lparr>bookings := []\<rparr>) d time d1)
       \<and> \<not> overlaps s1 (s1 + d1 * msPerMinute)
             (s1 + d1 * msPerMinute) (s1 + d1 * msPerMinute + d2 * msPerMinute)
       \<and> \<not> overlaps (s2 + d2 * msPerMinute) (s2 + d2 * msPerMinute + d1 * msPerMinute)
             s2 (s2 + d2 * msPerMinute)"
proof -
  let ?live = "\<lambda>b. onDate d (b_date b) \<and> (b_status b = Pending \<or> b_status b = Confirmed)"
  let ?hits = "\<lambda>b. \<exists>sv t. findService (services st) (b_service b) = Some sv
                 \<and> dateTimeOf (b_date b) (b_time b) = Some t
                 \<and> s1 < t + s_duration sv * msPerMinute \<and> t < s1 + d1 * msPerMinute"
  let ?free = "isTimeSlotAvailable (st\<lparr>bookings := []\<rparr>) d time d1"
  have m1: "0 < d1 * msPerMinute" and m2: "0 < d2 * msPerMinute"
    using pos1 pos2 by (simp_all add: msPerMinute_pos)
  have half: "\<And>a b x y. 0 < x \<Longrightarrow> 0 < y \<Longrightarrow> overlaps a (a + x) b (b + y) = (a < b + y \<and> b < a + x)"
    by (rule overlaps_half_open) simp_all
  have A: "overlaps s1 (s1 + d1 * msPerMinute) s2 (s2 + d2 * msPerMinute)
            = (s1 < s2 + d2 * msPerMinute \<and> s2 < s1 + d1 * msPerMinute)"
    using half [OF m1 m2] .
  have loop: "bookingLoop (services st) s1 (s1 + d1 * msPerMinute) bs = (\<exists>b\<in>set bs. ?hits b)" for bs
  proof -
    have "\<And>sv k t. findService (services st) k = Some sv \<Longrightarrow>
            overlaps s1 (s1 + d1 * msPerMinute) t (t + s_duration sv * msPerMinute)
              = (s1 < t + s_duration sv * msPerMinute \<and> t < s1 + d1 * msPerMinute)"
      using svc m1 by (intro half) (auto dest!: findService_mem simp: msPerMinute_pos)
    then show ?thesis
      unfolding bookingLoop_iff by (intro bex_cong refl ex_cong) auto
  qed
  have B: "isTimeSlotAvailable st d time d1
            \<longleftrightarrow> ?free \<and> \<not> (\<exists>b\<in>set (take 50 (filter ?live (bookings st))). ?hits b)"
    using isTimeSlotAvailable_without_bookings [OF start, of st d1]
    unfolding loop overlappingBookings_def .
  have C: "isTimeSlotAvailable st d time d1
            \<longleftrightarrow> ?free \<and> \<not> (\<exists>b\<in>set (bookings st). ?live b \<and> ?hits b)"
    if "length (filter ?live (bookings st)) \<le> 50"
  proof -
    have "take 50 (filter ?live (bookings st)) = filter ?live (bookings st)"
      using that by simp
    then show ?thesis unfolding B by auto
  qed
  have D: "isTimeSlotAvailable st d time d1 = ?free"
    if away: "\<forall>b\<in>set (bookings st). \<forall>sv t.
              findService (services st) (b_service b) = Some sv
              \<and> dateTimeOf (b_date b) (b_time b) = Some t
              \<longrightarrow> t + s_duration sv * msPerMinute \<le> s1 \<or> s1 + d1 * msPerMinute \<le> t"
  proof -
    have "\<not> ?hits b" if "b \<in> set (take 50 (filter ?live (bookings st)))" for b
    proof -
      have "b \<in> set (bookings st)" using that by (auto dest: in_set_takeD)
      with away show ?thesis by fastforce
    qed
    then show ?thesis unfolding B by blast
  qed
  have E: "?free"
    if "d1 \<le> 240 \<and> getDay d \<noteq> 0
            \<and> startOfDay d + 600 * msPerMinute \<le> s1
            \<and> s1 + d1 * msPerMinute
                 \<le> startOfDay d + (if getDay d = 6 then 780 else 1140) * msPerMinute
            \<and> (\<forall>l\<in>set (locks st). \<not> onDate d (l_date l))
            \<and> (\<forall>x\<in>set (blockedDates st).
                  \<not> (startOfDay d \<le> bd_date x \<and> bd_date x \<le> endOfDay d))"
    using that by (intro isTimeSlotAvailable_free_day [OF start pos1]) blast+
  have F: "\<not> overlaps s1 (s1 + d1 * msPerMinute)
             (s1 + d1 * msPerMinute) (s1 + d1 * msPerMinute + d2 * msPerMinute)"
    using m1 m2 by (simp add: half)
  have G: "\<not> overlaps (s2 + d2 * msPerMinute) (s2 + d2 * msPerMinute + d1 * msPerMinute)
             s2 (s2 + d2 * msPerMinute)"
    using m1 m2 by (simp add: half)
  from A B C D E F G show ?thesis by blast
qed

theorem c2_conflict_test_witness:
  "(0::int) < 30 \<and> list_all (\<lambda>sv. 0 < s_duration sv) (services exStore)
   \<and> dateTimeOf exDay ''10:30'' = Some 383400000
   \<and> bookings exStore = [exBooking]
   \<and> findService (services exStore) (b_service exBooking) = Some exService
   \<and> dateTimeOf (b_date exBooking) (b_time exBooking) = Some 381600000
   \<and> 381600000 + s_duration exService * msPerMinute = 383400000
   \<and> isTimeSlotAvailable exStore exDay ''10:30'' 30
   \<and> dateTimeOf exDay ''10:15'' = Some 382500000
   \<and> \<not> isTimeSlotAvailable exStore exDay ''10:15'' 30
   \<and> bookings exLateStore = [exBooking\<lparr>b_time := ''11:00''\<rparr>]
   \<and> dateTimeOf exDay ''11:00'' = Some 385200000
   \<and> 383400000 + 30 * msPerMinute = 385200000
   \<and> isTimeSlotAvailable exLateStore exDay ''10:30'' 30"
proof -
  have p: "(0::int) < 30" by simp
  have sv: "\<forall>sv\<in>set (services exStore). 0 < s_duration sv"
    by (simp add: exStore_def exService_def)
  have svL: "\<forall>sv\<in>set (services exLateStore). 0 < s_duration sv"
    by (simp add: exLateStore_def exStore_def exService_def)
  have t1030: "dateTimeOf exDay ''10:30'' = Some 383400000"
    by (simp add: time_defs exDay_def)
  have t1015: "dateTimeOf exDay ''10:15'' = Some 382500000"
    by (simp add: time_defs exDay_def)
  have t1100: "dateTimeOf exDay ''11:00'' = Some 385200000"
    by (simp add: time_defs exDay_def)
  have bk: "bookings exStore = [exBooking]" by (simp add: exStore_def)
  have bkL: "bookings exLateStore = [exBooking\<lparr>b_time := ''11:00''\<rparr>]"
    by (simp add: exLateStore_def)
  have fs: "findService (services exStore) (b_service exBooking) = Some exService"
    by (simp add: findService_def exStore_def exBooking_def exService_def)
  have fsL: "findService (services exLateStore) (b_service (exBooking\<lparr>b_time := ''11:00''\<rparr>))
               = Some exService"
    by (simp add: findService_def exLateStore_def exStore_def exBooking_def exService_def)
  have bt: "dateTimeOf (b_date exBooking) (b_time exBooking) = Some 381600000"
    by (simp add: time_defs exDay_def exBooking_def)
  have btL: "dateTimeOf (b_date (exBooking\<lparr>b_time := ''11:00''\<rparr>))
               (b_time (exBooking\<lparr>b_time := ''11:00''\<rparr>)) = Some 385200000"
    by (simp add: time_defs exDay_def exBooking_def)
  have en: "381600000 + s_duration exService * msPerMinute = 383400000"
    by (simp add: exService_def msPerMinute_def)
  have live: "onDate exDay (b_date exBooking) \<and> b_status exBooking = Pending"
    by (simp add: time_defs exDay_def exBooking_def)
  have day: "getDay exDay \<noteq> 0 \<and> getDay exDay \<noteq> 6 \<and> startOfDay exDay = 345600000"
    by (simp add: time_defs exDay_def)
  have nl: "locks exStore = [] \<and> blockedDates exStore = []" by (simp add: exStore_def)
  have nlL: "locks exLateStore = [] \<and> blockedDates exLateStore = []"
    by (simp add: exLateStore_def exStore_def)
  note T1 = c2_conflict_test_is_half_open_intersection [OF p p sv t1030, of 0]
  note T2 = c2_conflict_test_is_half_open_intersection [OF p p sv t1015, of 0]
  note T3 = c2_conflict_test_is_half_open_intersection [OF p p svL t1030, of 0]
  have free1: "isTimeSlotAvailable (exStore\<lparr>bookings := []\<rparr>) exDay ''10:30'' 30"
    using T1 day nl by (simp add: msPerMinute_def)
  have a1: "isTimeSlotAvailable exStore exDay ''10:30'' 30"
    using T1 free1 bk fs bt en by simp
  have a2: "\<not> isTimeSlotAvailable exStore exDay ''10:15'' 30"
    using T2 bk fs bt live by (simp add: exService_def msPerMinute_def)
  have free3: "isTimeSlotAvailable (exLateStore\<lparr>bookings := []\<rparr>) exDay ''10:30'' 30"
    using T3 day nlL by (simp add: msPerMinute_def)
  have a3: "isTimeSlotAvailable exLateStore exDay ''10:30'' 30"
    using T3 free3 bkL fsL btL by (simp add: msPerMinute_def)
  from p sv t1030 bk fs bt en a1 t1015 a2 bkL t1100 a3 show ?thesis
    by (simp add: list_all_iff msPerMinute_def)
qed

text \<open>
  The claim as stated fails on a crowded day. After fifty confirmed bookings of five
  minutes, from 10:00 to 14:10, a confirmed booking of 30 minutes at 14:30 is the
  fifty-first of the day, and the candidate on that very interval is available.
\<close>

theorem c2_conflict_test_counterexample:
  "exLateBooking \<in> set (bookings exCrowdedStore)
   \<and> length (bookings exCrowdedStore) = 51
   \<and> distinct (map b_id (bookings exCrowdedStore))
   \<and> b_status exLateBooking = Confirmed \<and> onDate exDay (b_date exLateBooking)
   \<and> findService (services exCrowdedStore) (b_service exLateBooking) = Some exService
   \<and> dateTimeOf (b_date exLateBooking) (b_time exLateBooking) = Some 397800000
   \<and> dateTimeOf exDay ''14:30'' = Some 397800000
   \<and> (397800000::int) < 397800000 + s_duration exService * msPerMinute
   \<and> (397800000::int) < 397800000 + 30 * msPerMinute
   \<and> isTimeSlotAvailable exCrowdedStore exDay ''14:30'' 30"
proof -
  have bk: "bookings exCrowdedStore = map exQuickBooking [0 ..< 50] @ [exLateBooking]"
    by (simp add: exCrowdedStore_def)
  have rest: "services exCrowdedStore = [exService, exShort] \<and> locks exCrowdedStore = []
              \<and> blockedDates exCrowdedStore = []"
    by (simp add: exCrowdedStore_def exStore_def)
  have q: "onDate exDay (b_date (exQuickBooking k)) \<and> b_status (exQuickBooking k) = Confirmed
           \<and> b_service (exQuickBooking k) = 2 \<and> b_id (exQuickBooking k) = k + 2
           \<and> b_date (exQuickBooking k) = exDay
           \<and> b_time (exQuickBooking k) = slotTime ((600 + 5 * k) div 60, (600 + 5 * k) mod 60)"
    for k
    by (simp add: exQuickBooking_def exBooking_def time_defs exDay_def)
  have lb: "b_status exLateBooking = Confirmed \<and> onDate exDay (b_date exLateBooking)
            \<and> b_id exLateBooking = 52 \<and> b_service exLateBooking = 1"
    by (simp add: exLateBooking_def exBooking_def time_defs exDay_def)
  have day: "getDay exDay \<noteq> 0 \<and> getDay exDay \<noteq> 6 \<and> startOfDay exDay = 345600000"
    by (simp add: time_defs exDay_def)
  have c1: "exLateBooking \<in> set (bookings exCrowdedStore)" by (simp add: bk)
  have c2: "length (bookings exCrowdedStore) = 51" by (simp add: bk)
  have c3: "distinct (map b_id (bookings exCrowdedStore))"
  proof -
    have "map b_id (bookings exCrowdedStore) = map (\<lambda>k. k + 2) [0 ..< 50] @ [52]"
      by (simp add: bk q lb)
    moreover have "distinct (map (\<lambda>k. k + 2) [0 ..< 50] @ [52::nat])"
      by (auto simp: distinct_map inj_on_def)
    ultimately show ?thesis by simp
  qed
  have c4: "findService (services exCrowdedStore) (b_service exLateBooking) = Some exService"
    by (simp add: rest lb findService_def exService_def)
  have c5: "dateTimeOf (b_date exLateBooking) (b_time exLateBooking) = Some 397800000"
    by (simp add: exLateBooking_def exBooking_def time_defs exDay_def)
  have c6: "dateTimeOf exDay ''14:30'' = Some 397800000"
    by (simp add: time_defs exDay_def)
  have c7: "(397800000::int) < 397800000 + s_duration exService * msPerMinute
            \<and> (397800000::int) < 397800000 + 30 * msPerMinute"
    by (simp add: exService_def msPerMinute_def)
  have od: "onDate exDay exDay" by (simp add: time_defs exDay_def)
  have fetch: "overlappingBookings exCrowdedStore exDay = map exQuickBooking [0 ..< 50]"
    by (simp add: overlappingBookings_def bk filter_map comp_def q lb od)
  have short: "findService (services exCrowdedStore) 2 = Some exShort"
    by (simp add: rest findService_def exService_def exShort_def)
  have nohit: "\<not> bookingLoop (services exCrowdedStore) 397800000 (397800000 + 30 * msPerMinute)
                   (map exQuickBooking [0 ..< 50])"
  proof
    assume "bookingLoop (services exCrowdedStore) 397800000 (397800000 + 30 * msPerMinute)
              (map exQuickBooking [0 ..< 50])"
    then obtain k sv t where k: "k < 50"
      and sv: "findService (services exCrowdedStore) (b_service (exQuickBooking k)) = Some sv"
      and t: "dateTimeOf (b_date (exQuickBooking k)) (b_time (exQuickBooking k)) = Some t"
      and ov: "overlaps 397800000 (397800000 + 30 * msPerMinute) t (t + s_duration sv * msPerMinute)"
      unfolding bookingLoop_iff by auto
    have "sv = exShort" using sv short by (simp add: q)
    moreover have "t = 345600000 + (600 + 5 * int k) * msPerMinute"
      using t dateTimeOf_slotTime [OF k, of exDay] day by (simp add: q)
    ultimately show False
      using ov k by (simp add: overlaps_def exShort_def msPerMinute_def)
  qed
  have c8: "isTimeSlotAvailable exCrowdedStore exDay ''14:30'' 30"
    using isTimeSlotAvailable_open_day [OF c6, of 30 exCrowdedStore] day rest nohit
    by (simp add: fetch activeLocks_def msPerMinute_def)
  from c1 c2 c3 lb c4 c5 c6 c7 c8 show ?thesis by simp
qed

section \<open>Lookups after updates\<close>

lemma find_map_key:
  assumes "\<And>x. key (g x) = key x"
  shows "find (\<lambda>x. key x = k) (map g xs) = map_option g (find (\<lambda>x. key x = k) xs)"
  using assms by (induction xs) auto

lemma findBooking_updateBooking:
  assumes "\<And>x. b_id (f x) = b_id x"
  shows "findBooking (updateBooking k f bs) j
           = map_option (\<lambda>b. if b_id b = k then f b else b) (findBooking bs j)"
  unfolding findBooking_def updateBooking_def
  by (rule find_map_key) (simp add: assms)

lemma findClient_saveClient:
  assumes "\<And>x. c_id (f x) = c_id x"
  shows "findClient (saveClient now k f cs) j
           = map_option (\<lambda>c. if c_id c = k then (f c)\<lparr>c_lastModified := now\<rparr> else c) (findClient cs j)"
  unfolding findClient_def saveClient_def
  by (rule find_map_key) (simp add: assms)

lemma findBooking_id: "findBooking bs k = Some b \<Longrightarrow> b_id b = k"
  unfolding findBooking_def by (auto simp: find_Some_iff)

lemma findClient_id: "findClient cs k = Some c \<Longrightarrow> c_id c = k"
  unfolding findClient_def by (auto simp: find_Some_iff)

lemma populateClient_find:
  "populateClient st b = Some c \<Longrightarrow> findClient (clients st) (c_id c) = Some c"
  unfolding populateClient_def by (auto split: option.splits dest: findClient_id)

lemma filter_updateBooking_others:
  "filter (\<lambda>x. b_id x \<noteq> k) (updateBooking k f bs) = filter (\<lambda>x. b_id x \<noteq> k) bs"
  if "\<And>x. b_id (f x) = b_id x"
  unfolding updateBooking_def using that by (induction bs) auto

section \<open>Completing a service\<close>

lemma saveClientChecked_Some:
  assumes "findClient cs k = Some c" and "countersValid (f c)"
  shows "saveClientChecked now k f cs = Some (saveClient now k f cs)"
  using assms by (simp add: saveClientChecked_def)

lemma saveClientChecked_None:
  assumes "findClient cs k = Some c" and "\<not> countersValid (f c)"
  shows "saveClientChecked now k f cs = None"
  using assms by (simp add: saveClientChecked_def)

text \<open>
  A booking that is not confirmed is refused with the error 400 and nothing is written.
\<close>

lemma completeBookingService_not_confirmed:
  assumes "findBooking (bookings st) k = Some b" and "b_status b \<noteq> Confirmed"
  shows "completeBookingService ev st k = (Failure 400 (CannotComplete (b_status b)) NoPayload, st)"
  using assms by (simp add: completeBookingService_def)

text \<open>
  A confirmed booking is saved as completed. When the save of its client is accepted the
  call succeeds and the client has \<open>completedBookings\<close> raised by one; when it is
  refused the reply is the error 500 and the booking stays completed.
\<close>

lemma completeBookingService_accepted:
  assumes found: "findBooking (bookings st) k = Some b"
    and conf: "b_status b = Confirmed"
    and ok: "\<And>c. populateClient st b = Some c \<Longrightarrow>
               countersValid (c\<lparr>c_completedBookings := c_completedBookings c + 1,
                                c_lastVisit := Some (e_now ev)\<rparr>)"
  shows "fst (completeBookingService ev st k) = Success (BookingRef k)
     \<and> findBooking (bookings (snd (completeBookingService ev st k))) k
         = Some (b\<lparr>b_status := Completed, b_completedAt := Some (e_now ev)\<rparr>)
     \<and> filter (\<lambda>x. b_id x \<noteq> k) (bookings (snd (completeBookingService ev st k)))
         = filter (\<lambda>x. b_id x \<noteq> k) (bookings st)
     \<and> (\<forall>c. populateClient st b = Some c \<longrightarrow>
           findClient (clients (snd (completeBookingService ev st k))) (c_id c)
             = Some (c\<lparr>c_completedBookings := c_completedBookings c + 1,
                       c_lastVisit := Some (e_now ev), c_lastModified := e_now ev\<rparr>))
     \<and> (populateClient st b = None \<longrightarrow>
           clients (snd (completeBookingService ev st k)) = clients st)"
proof (cases "populateClient st b")
  case None
  then show ?thesis
    using found conf
    by (simp add: completeBookingService_def Let_def findBooking_updateBooking
        findBooking_id filter_updateBooking_others)
next
  case (Some c)
  have fc: "findClient (clients st) (c_id c) = Some c"
    using Some by (rule populateClient_find)
  have sv: "saveClientChecked (e_now ev) (c_id c)
              (\<lambda>x. x\<lparr>c_completedBookings := c_completedBookings x + 1,
                     c_lastVisit := Some (e_now ev)\<rparr>) (clients st)
            = Some (saveClient (e_now ev) (c_id c)
                     (\<lambda>x. x\<lparr>c_completedBookings := c_completedBookings x + 1,
                            c_lastVisit := Some (e_now ev)\<rparr>) (clients st))"
    using fc ok [OF Some] by (rule saveClientChecked_Some)
  show ?thesis
    using found conf Some sv fc
    by (simp add: completeBookingService_def Let_def findBooking_updateBooking
        findBooking_id filter_updateBooking_others findClient_saveClient)
qed

lemma completeBookingService_refused:
  assumes found: "findBooking (bookings st) k = Some b"
    and conf: "b_status b = Confirmed"
    and cl: "populateClient st b = Some c"
    and bad: "\<not> countersValid (c\<lparr>c_completedBookings := c_completedBookings c + 1,
                                  c_lastVisit := Some (e_now ev)\<rparr>)"
  shows "completeBookingService ev st k
           = (Failure 500 InternalError NoPayload,
              st\<lparr>bookings := updateBooking k
                    (\<lambda>x. x\<lparr>b_status := Completed, b_completedAt := Some (e_now ev)\<rparr>)
                    (bookings st)\<rparr>)"
proof -
  have "saveClientChecked (e_now ev) (c_id c)
              (\<lambda>x. x\<lparr>c_completedBookings := c_completedBookings x + 1,
                     c_lastVisit := Some (e_now ev)\<rparr>) (clients st) = None"
    using populateClient_find [OF cl] bad by (rule saveClientChecked_None)
  then show ?thesis
    using found conf cl by (simp add: completeBookingService_def Let_def)
qed

text \<open>
  Claim C4. \<open>completeBookingService\<close> is to succeed exactly when the booking is
  confirmed, and to change neither booking nor client when it answers with an error.
  It does so while the client of the booking is below the bound of 1000 that the Client
  schema puts on \<open>completedBookings\<close>. On the confirmed booking of a client who has
  reached that bound (a stored client the schema accepts) the controller raises the
  counter without the test that \<open>Client.completeBooking\<close> and
  \<open>Client.incrementEmailCounter\<close> make: the booking is saved as completed, the save of
  the client is refused, and the reply is the error 500. The booking is confirmed and
  the call fails, and the failed call has changed the booking.
\<close>

theorem c4_complete_service_fails_at_counter_bound:
  "findBooking (bookings exCapStore) 1 = Some (exBooking\<lparr>b_status := Confirmed\<rparr>)
   \<and> populateClient exCapStore (exBooking\<lparr>b_status := Confirmed\<rparr>) = Some exBusyClient
   \<and> countersValid exBusyClient
   \<and> c_completedBookings exBusyClient = 1000
   \<and> completeBookingService exEnv exCapStore 1
       = (Failure 500 InternalError NoPayload,
          exCapStore\<lparr>bookings :=
            [exBooking\<lparr>b_status := Completed, b_completedAt := Some 475200000\<rparr>]\<rparr>)
   \<and> clients (snd (completeBookingService exEnv exCapStore 1)) = [exBusyClient]"
proof -
  have h1: "findBooking (bookings exCapStore) 1 = Some (exBooking\<lparr>b_status := Confirmed\<rparr>)"
    by (simp add: findBooking_def exCapStore_def exConfirmedStore_def exStore_def exBooking_def)
  have h2: "populateClient exCapStore (exBooking\<lparr>b_status := Confirmed\<rparr>) = Some exBusyClient"
    by (simp add: populateClient_def findClient_def exCapStore_def exConfirmedStore_def
        exStore_def exBooking_def exBusyClient_def exClient_def)
  have h3: "countersValid exBusyClient \<and> c_completedBookings exBusyClient = 1000"
    by (simp add: countersValid_def exBusyClient_def exClient_def)
  have h4: "\<not> countersValid (exBusyClient\<lparr>c_completedBookings := c_completedBookings exBusyClient + 1,
                                            c_lastVisit := Some (e_now exEnv)\<rparr>)"
    by (simp add: countersValid_def exBusyClient_def exClient_def)
  have h5: "completeBookingService exEnv exCapStore 1
       = (Failure 500 InternalError NoPayload,
          exCapStore\<lparr>bookings :=
            [exBooking\<lparr>b_status := Completed, b_completedAt := Some 475200000\<rparr>]\<rparr>)"
    using completeBookingService_refused [OF h1 _ h2 h4]
    by (simp add: updateBooking_def exCapStore_def exConfirmedStore_def exStore_def
        exBooking_def exEnv_def)
  have h6: "clients exCapStore = [exBusyClient]"
    by (simp add: exCapStore_def exConfirmedStore_def exStore_def)
  from h1 h2 h3 h5 h6 show ?thesis by simp
qed

section \<open>Terminal states\<close>

lemma pending_after_updateBooking:
  assumes "b' \<in> set (updateBooking k f bs)" and "b_status b' = Pending"
    and "\<And>x. b_status (f x) \<noteq> Pending"
  shows "b' \<in> set bs"
  using assms unfolding updateBooking_def by (auto split: if_splits)

lemma pending_after_setStatus:
  assumes "b' \<in> set (bookings (setStatus k s st))" and "b_status b' = Pending" and "s \<noteq> Pending"
  shows "b' \<in> set (bookings st)"
  using assms unfolding setStatus_def
  by (auto intro: pending_after_updateBooking [where f = "\<lambda>b. b\<lparr>b_status := s\<rparr>"])

lemma bookings_decideBooking:
  "bookings (snd (decideBooking s ev st k)) = bookings st
   \<or> bookings (snd (decideBooking s ev st k)) = bookings (setStatus k s st)"
  unfolding decideBooking_def
  by (auto simp: Let_def setStatus_def split: option.splits)

lemma bookings_blockClientOf: "bookings (blockClientOf ev st b r) = bookings st"
  unfolding blockClientOf_def by (auto simp: Let_def split: option.splits)

lemma bookings_blockUser:
  "bookings (snd (blockUser ev st k r)) = bookings st
   \<or> bookings (snd (blockUser ev st k r)) = bookings (setStatus k Declined st)"
  unfolding blockUser_def
  by (auto simp: Let_def setStatus_def bookings_blockClientOf split: option.splits)

lemma bookings_suspendBooking:
  "bookings (snd (suspendBooking ev st k sess)) = bookings st
   \<or> bookings (snd (suspendBooking ev st k sess)) = bookings (setStatus k Cancelled st)"
  unfolding suspendBooking_def
  by (auto simp: Let_def setStatus_def split: option.splits)

lemma findBooking_setStatus:
  "findBooking (bookings st) k = Some b \<Longrightarrow>
   findBooking (bookings (setStatus k s st)) k = Some (b\<lparr>b_status := s\<rparr>)"
  unfolding setStatus_def by (simp add: findBooking_updateBooking findBooking_id)

lemma bookings_completeBookingService:
  "bookings (snd (completeBookingService ev st k)) = bookings st
   \<or> bookings (snd (completeBookingService ev st k))
       = updateBooking k (\<lambda>x. x\<lparr>b_status := Completed, b_completedAt := Some (e_now ev)\<rparr>)
           (bookings st)"
  unfolding completeBookingService_def
  by (auto simp: Let_def split: option.splits)

text \<open>
  Claim C3, as the code has it. Only \<open>completeBookingService\<close> refuses a booking in a
  terminal state (\<open>declined\<close> or \<open>completed\<close>), with the error 400 and the store
  unchanged. \<open>confirmBooking\<close>, \<open>declineBooking\<close> and \<open>blockUser\<close> test no status,
  and \<open>suspendBooking\<close> refuses a confirmed booking only: on a terminal booking (whose
  service exists) they succeed and set the status to \<open>confirmed\<close>, \<open>declined\<close>,
  \<open>declined\<close> and \<open>cancelled\<close>. None of the five ever sets a status to
  \<open>pending\<close>, whatever the state and the booking they are called on: a booking that
  is pending afterwards was stored, as it is, before.
\<close>

theorem c3_terminal_states_by_operation:
  "(findBooking (bookings st) k = Some b
      \<and> (b_status b = Declined \<or> b_status b = Completed)
      \<and> findService (services st) (b_service b) = Some sv \<longrightarrow>
        completeBookingService ev st k = (Failure 400 (CannotComplete (b_status b)) NoPayload, st)
      \<and> (\<exists>p. fst (confirmBooking ev st k) = Success p)
      \<and> map_option b_status (findBooking (bookings (snd (confirmBooking ev st k))) k) = Some Confirmed
      \<and> (\<exists>p. fst (declineBooking ev st k) = Success p)
      \<and> map_option b_status (findBooking (bookings (snd (declineBooking ev st k))) k) = Some Declined
      \<and> (\<exists>p. fst (blockUser ev st k r) = Success p)
      \<and> map_option b_status (findBooking (bookings (snd (blockUser ev st k r))) k) = Some Declined
      \<and> (\<exists>p. fst (suspendBooking ev st k sess) = Success p)
      \<and> map_option b_status (findBooking (bookings (snd (suspendBooking ev st k sess))) k)
          = Some Cancelled)
   \<and> (\<forall>b'\<in>set (bookings (snd (confirmBooking ev st k))).
         b_status b' = Pending \<longrightarrow> b' \<in> set (bookings st))
   \<and> (\<forall>b'\<in>set (bookings (snd (declineBooking ev st k))).
         b_status b' = Pending \<longrightarrow> b' \<in> set (bookings st))
   \<and> (\<forall>b'\<in>set (bookings (snd (blockUser ev st k r))).
         b_status b' = Pending \<longrightarrow> b' \<in> set (bookings st))
   \<and> (\<forall>b'\<in>set (bookings (snd (suspendBooking ev st k sess))).
         b_status b' = Pending \<longrightarrow> b' \<in> set (bookings st))
   \<and> (\<forall>b'\<in>set (bookings (snd (completeBookingService ev st k))).
         b_status b' = Pending \<longrightarrow> b' \<in> set (bookings st))"
proof -
  have T: "completeBookingService ev st k = (Failure 400 (CannotComplete (b_status b)) NoPayload, st)
      \<and> (\<exists>p. fst (confirmBooking ev st k) = Success p)
      \<and> map_option b_status (findBooking (bookings (snd (confirmBooking ev st k))) k) = Some Confirmed
      \<and> (\<exists>p. fst (declineBooking ev st k) = Success p)
      \<and> map_option b_status (findBooking (bookings (snd (declineBooking ev st k))) k) = Some Declined
      \<and> (\<exists>p. fst (blockUser ev st k r) = Success p)
      \<and> map_option b_status (findBooking (bookings (snd (blockUser ev st k r))) k) = Some Declined
      \<and> (\<exists>p. fst (suspendBooking ev st k sess) = Success p)
      \<and> map_option b_status (findBooking (bookings (snd (suspendBooking ev st k sess))) k)
          = Some Cancelled"
    if found: "findBooking (bookings st) k = Some b"
      and terminal: "b_status b = Declined \<or> b_status b = Completed"
      and svc: "findService (services st) (b_service b) = Some sv"
  proof -
    have A: "completeBookingService ev st k = (Failure 400 (CannotComplete (b_status b)) NoPayload, st)"
      using found terminal by (auto simp: completeBookingService_def)
    have dec: "(\<exists>p. fst (decideBooking s ev st k) = Success p)
               \<and> map_option b_status (findBooking (bookings (snd (decideBooking s ev st k))) k) = Some s"
      for s
      using found svc findBooking_setStatus [OF found, of s]
      by (auto simp: decideBooking_def Let_def split: option.splits)
    have blk: "(\<exists>p. fst (blockUser ev st k r) = Success p)
       \<and> map_option b_status (findBooking (bookings (snd (blockUser ev st k r))) k) = Some Declined"
    proof -
      have f0: "findBooking (bookings (blockClientOf ev st b r)) k = Some b"
        using found by (simp add: bookings_blockClientOf)
      show ?thesis
        using found findBooking_setStatus [OF f0, of Declined]
        by (auto simp: blockUser_def Let_def split: option.splits)
    qed
    have sus: "(\<exists>p. fst (suspendBooking ev st k sess) = Success p)
       \<and> map_option b_status (findBooking (bookings (snd (suspendBooking ev st k sess))) k)
           = Some Cancelled"
    proof -
      let ?st0 = "st\<lparr>locks := deleteOneLock (b_date b) (b_time b) (b_service b) sess (locks st)\<rparr>"
      have f0: "findBooking (bookings ?st0) k = Some b" using found by simp
      show ?thesis
        using found terminal findBooking_setStatus [OF f0, of Cancelled]
        by (auto simp: suspendBooking_def)
    qed
    from A dec [of Confirmed] dec [of Declined] blk sus
    show ?thesis unfolding confirmBooking_def declineBooking_def by simp
  qed
  have keep: "\<forall>b'\<in>set (bookings (snd out)). b_status b' = Pending \<longrightarrow> b' \<in> set (bookings st)"
    if "bookings (snd out) = bookings st
        \<or> (\<exists>s. s \<noteq> Pending \<and> bookings (snd out) = bookings (setStatus k s st))"
    for out :: "response \<times> store"
    using that by (auto dest: pending_after_setStatus)
  have k1: "\<forall>b'\<in>set (bookings (snd (decideBooking s ev st k))).
              b_status b' = Pending \<longrightarrow> b' \<in> set (bookings st)" if "s \<noteq> Pending" for s
    using bookings_decideBooking [of s ev st k] that by (intro keep) auto
  have k2: "\<forall>b'\<in>set (bookings (snd (blockUser ev st k r))).
              b_status b' = Pending \<longrightarrow> b' \<in> set (bookings st)"
    using bookings_blockUser [of ev st k r] by (intro keep) auto
  have k3: "\<forall>b'\<in>set (bookings (snd (suspendBooking ev st k sess))).
              b_status b' = Pending \<longrightarrow> b' \<in> set (bookings st)"
    using bookings_suspendBooking [of ev st k sess] by (intro keep) auto
  have k4: "\<forall>b'\<in>set (bookings (snd (completeBookingService ev st k))).
              b_status b' = Pending \<longrightarrow> b' \<in> set (bookings st)"
  proof (intro ballI impI)
    fix b'
    assume m: "b' \<in> set (bookings (snd (completeBookingService ev st k)))"
      and p: "b_status b' = Pending"
    from bookings_completeBookingService [of ev st k] show "b' \<in> set (bookings st)"
    proof
      assume "bookings (snd (completeBookingService ev st k)) = bookings st"
      with m show ?thesis by simp
    next
      assume "bookings (snd (completeBookingService ev st k))
                = updateBooking k
                    (\<lambda>x. x\<lparr>b_status := Completed, b_completedAt := Some (e_now ev)\<rparr>)
                    (bookings st)"
      with m have "b' \<in> set (updateBooking k
                    (\<lambda>x. x\<lparr>b_status := Completed, b_completedAt := Some (e_now ev)\<rparr>)
                    (bookings st))"
        by simp
      then show ?thesis using p by (rule pending_after_updateBooking) simp
    qed
  qed
  have k1c: "\<forall>b'\<in>set (bookings (snd (confirmBooking ev st k))).
              b_status b' = Pending \<longrightarrow> b' \<in> set (bookings st)"
    using k1 [of Confirmed] unfolding confirmBooking_def by simp
  have k1d: "\<forall>b'\<in>set (bookings (snd (declineBooking ev st k))).
              b_status b' = Pending \<longrightarrow> b' \<in> set (bookings st)"
    using k1 [of Declined] unfolding declineBooking_def by simp
  from T k1c k1d k2 k3 k4 show ?thesis by blast
qed

theorem c3_terminal_states_witness:
  "findBooking (bookings exDeclinedStore) 1 = Some (exBooking\<lparr>b_status := Declined\<rparr>)
   \<and> findService (services exDeclinedStore) 1 = Some exService
   \<and> completeBookingService exEnv exDeclinedStore 1
       = (Failure 400 (CannotComplete Declined) NoPayload, exDeclinedStore)
   \<and> map_option b_status
        (findBooking (bookings (snd (suspendBooking exEnv exDeclinedStore 1 ''s''))) 1)
       = Some Cancelled
   \<and> list_all (\<lambda>b'. b_status b' \<noteq> Pending)
        (bookings (snd (confirmBooking exEnv exStore 1)))"
proof -
  have h1: "findBooking (bookings exDeclinedStore) 1 = Some (exBooking\<lparr>b_status := Declined\<rparr>)"
    by (simp add: findBooking_def exDeclinedStore_def exStore_def exBooking_def)
  have h2: "b_status (exBooking\<lparr>b_status := Declined\<rparr>) = Declined
            \<or> b_status (exBooking\<lparr>b_status := Declined\<rparr>) = Completed"
    by simp
  have h3: "findService (services exDeclinedStore) (b_service (exBooking\<lparr>b_status := Declined\<rparr>))
              = Some exService"
    by (simp add: findService_def exDeclinedStore_def exStore_def exBooking_def exService_def)
  have h4: "bookings exStore = [exBooking]" by (simp add: exStore_def)
  have h5: "exBooking \<notin> set (bookings (snd (confirmBooking exEnv exStore 1)))"
    by (simp add: confirmBooking_def decideBooking_def findBooking_def findService_def
      exStore_def exBooking_def exService_def exClient_def exEnv_def
      quotaExhausted_def getBookingEmailUsage_def getDailyEmailUsage_def setStatus_def
      updateBooking_def populateClient_def findClient_def incrementEmailCounter_def Let_def)
  have A: "completeBookingService exEnv exDeclinedStore 1
       = (Failure 400 (CannotComplete Declined) NoPayload, exDeclinedStore)
     \<and> map_option b_status
        (findBooking (bookings (snd (suspendBooking exEnv exDeclinedStore 1 ''s''))) 1)
       = Some Cancelled"
    using c3_terminal_states_by_operation
      [where st = exDeclinedStore and k = 1 and b = "exBooking\<lparr>b_status := Declined\<rparr>"
         and sv = exService and ev = exEnv and r = "''x''" and sess = "''s''"] h1 h2 h3
    by simp
  have B: "\<forall>b'\<in>set (bookings (snd (confirmBooking exEnv exStore 1))).
             b_status b' = Pending \<longrightarrow> b' \<in> set (bookings exStore)"
    using c3_terminal_states_by_operation
      [where st = exStore and k = 1 and ev = exEnv] by blast
  have C: "list_all (\<lambda>b'. b_status b' \<noteq> Pending) (bookings (snd (confirmBooking exEnv exStore 1)))"
    unfolding list_all_iff
  proof
    fix b' assume m: "b' \<in> set (bookings (snd (confirmBooking exEnv exStore 1)))"
    show "b_status b' \<noteq> Pending"
    proof
      assume "b_status b' = Pending"
      with B m have "b' \<in> set (bookings exStore)" by blast
      then have "b' = exBooking" using h4 by simp
      with m h5 show False by simp
    qed
  qed
  from h1 h3 A C show ?thesis by (simp add: exBooking_def)
qed

text \<open>
  The claim as stated fails: confirming the declined booking of the example succeeds and
  leaves it confirmed.
\<close>

theorem c3_terminal_states_counterexample:
  "findBooking (bookings exDeclinedStore) 1 = Some (exBooking\<lparr>b_status := Declined\<rparr>)
   \<and> fst (confirmBooking exEnv exDeclinedStore 1) = Success (EmailReport EmailSent)
   \<and> map b_status (bookings (snd (confirmBooking exEnv exDeclinedStore 1))) = [Confirmed]"
  by (simp add: confirmBooking_def decideBooking_def findBooking_def findService_def
      exDeclinedStore_def exStore_def exBooking_def exService_def exClient_def exEnv_def
      quotaExhausted_def getBookingEmailUsage_def getDailyEmailUsage_def setStatus_def
      updateBooking_def populateClient_def findClient_def incrementEmailCounter_def Let_def)

section \<open>The slot lock\<close>

lemma set_removeFirst: "set (removeFirst P xs) \<subseteq> set xs"
  by (induction xs) auto

lemma distinct_removeFirst:
  "distinct (map f xs) \<Longrightarrow> distinct (map f (removeFirst P xs))"
proof (induction xs)
  case Nil
  then show ?case by simp
next
  case (Cons x xs)
  have "f x \<notin> f ` set (removeFirst P xs)"
    using Cons.prems set_removeFirst [of P xs] by auto
  with Cons show ?case by auto
qed

lemma saveTimeLock_duplicate:
  assumes "lockKey l \<in> set (map lockKey ls)"
  shows "saveTimeLock l ls = Inl DuplicateKey \<or> saveTimeLock l ls = Inl ValidationError"
  using assms by (simp add: saveTimeLock_def)

lemma saveTimeLock_distinct:
  assumes "distinct (map lockKey ls)" and "saveTimeLock l ls = Inr ls'"
  shows "distinct (map lockKey ls')"
  using assms by (auto simp: saveTimeLock_def split: if_splits)

lemma locks_lookupService: "locks (snd (lookupService now st k)) = locks st"
  by (auto simp: lookupService_def getService_def Let_def split: option.splits)

lemma locks_createBooking:
  "locks (snd (createBooking ev st serviceId d time sessionID)) = locks st
   \<or> saveTimeLock \<lparr>l_date = d, l_time = time, l_serviceId = serviceId,
                    l_lockedBy = sessionID, l_lockedAt = e_now ev\<rparr> (locks st)
       = Inr (locks (snd (createBooking ev st serviceId d time sessionID)))"
proof -
  obtain found st1 where ls: "lookupService (e_now ev) st serviceId = (found, st1)"
    by (cases "lookupService (e_now ev) st serviceId")
  then have l1: "locks st1 = locks st"
    using locks_lookupService [of "e_now ev" st serviceId] by simp
  show ?thesis
    using ls l1
    by (auto simp: createBooking_def acquireLock_def split: option.splits sum.splits dbError.splits)
qed

lemma locks_findOrCreateClient:
  "findOrCreateClient ev st q = Inr (k, st') \<Longrightarrow> locks st' = locks st"
  by (auto simp: findOrCreateClient_def Let_def split: option.splits if_splits)

lemma locks_storeBooking:
  "locks (snd (storeBooking ev s c q serviceId d time))
     = deleteOneLock d time serviceId (q_sessionID q) (locks s)"
  by (simp add: storeBooking_def Let_def split: option.splits)

lemma locks_submitBooking:
  "locks (snd (submitBooking ev st q serviceId d time)) = locks st
   \<or> locks (snd (submitBooking ev st q serviceId d time))
       = deleteOneLock d time serviceId (q_sessionID q) (locks st)"
proof -
  obtain found st1 where ls: "lookupService (e_now ev) st serviceId = (found, st1)"
    by (cases "lookupService (e_now ev) st serviceId")
  then have l1: "locks st1 = locks st"
    using locks_lookupService [of "e_now ev" st serviceId] by simp
  show ?thesis
  proof (cases "findOrCreateClient ev st1 q")
    case (Inl r)
    then show ?thesis using ls l1 by (auto simp: submitBooking_def split: option.splits)
  next
    case (Inr p)
    obtain k st2 where p: "p = (k, st2)" by (cases p)
    with Inr have "locks st2 = locks st1" by (auto dest: locks_findOrCreateClient)
    then show ?thesis
      using ls l1 Inr p by (auto simp: submitBooking_def locks_storeBooking split: option.splits)
  qed
qed

lemma locks_completeBooking:
  "locks (snd (completeBooking ev st q)) = locks st
   \<or> (\<exists>d time serviceId.
        locks (snd (completeBooking ev st q))
          = deleteOneLock d time serviceId (q_sessionID q) (locks st))"
proof (cases "resolveRequest ev q")
  case (Inl r)
  then show ?thesis by (simp add: completeBooking_def)
next
  case (Inr p)
  obtain serviceId d time where "p = (serviceId, d, time)" by (cases p)
  with Inr show ?thesis
    using locks_submitBooking [of ev st q serviceId d time]
    by (auto simp: completeBooking_def)
qed

lemma locks_suspendBooking:
  "locks (snd (suspendBooking ev st k sess)) = locks st
   \<or> (\<exists>d time serviceId.
        locks (snd (suspendBooking ev st k sess)) = deleteOneLock d time serviceId sess (locks st))"
  by (auto simp: suspendBooking_def setStatus_def split: option.splits)

text \<open>
  Claim C1. Let no two stored locks share the key \<open>(date, time, serviceId)\<close>. When a
  lock with the requested key is stored, the insert of \<open>createBooking\<close> fails and is
  answered (for a lock document the schema accepts) with the error 400 of the slot
  reserved by another client; \<open>createBooking\<close> as a whole never succeeds then and
  leaves the locks as they are. Claiming a slot, submitting the contact details and
  suspending a booking, the operations that write locks, keep the keys distinct.
\<close>

theorem c1_lock_conflict_and_uniqueness:
  assumes inv: "distinct (map lockKey (locks st))"
  shows "((d, time, serviceId) \<in> set (map lockKey (locks st)) \<longrightarrow>
            (\<exists>r. acquireLock ev st d time serviceId sessionID = Inl r)
          \<and> (sessionID \<noteq> [] \<and> parseTime time \<noteq> None \<longrightarrow>
               acquireLock ev st d time serviceId sessionID
                 = Inl (Failure 400 SlotReserved NoPayload))
          \<and> (\<exists>c x p. fst (createBooking ev st serviceId d time sessionID) = Failure c x p)
          \<and> locks (snd (createBooking ev st serviceId d time sessionID)) = locks st)
     \<and> distinct (map lockKey (locks (snd (createBooking ev st serviceId d time sessionID))))
     \<and> distinct (map lockKey (locks (snd (completeBooking ev st q))))
     \<and> distinct (map lockKey (locks (snd (suspendBooking ev st k sessionID))))"
proof -
  let ?l = "\<lparr>l_date = d, l_time = time, l_serviceId = serviceId,
             l_lockedBy = sessionID, l_lockedAt = e_now ev\<rparr>"
  have key: "lockKey ?l = (d, time, serviceId)" by (simp add: lockKey_def)
  have A: "(\<exists>r. acquireLock ev st d time serviceId sessionID = Inl r)
          \<and> (sessionID \<noteq> [] \<and> parseTime time \<noteq> None \<longrightarrow>
               acquireLock ev st d time serviceId sessionID
                 = Inl (Failure 400 SlotReserved NoPayload))
          \<and> (\<exists>c x p. fst (createBooking ev st serviceId d time sessionID) = Failure c x p)
          \<and> locks (snd (createBooking ev st serviceId d time sessionID)) = locks st"
    if dup: "(d, time, serviceId) \<in> set (map lockKey (locks st))"
  proof -
    have s: "saveTimeLock ?l (locks st) = Inl DuplicateKey
             \<or> saveTimeLock ?l (locks st) = Inl ValidationError"
      using dup key by (intro saveTimeLock_duplicate) simp
    have a1: "\<exists>r. acquireLock ev st d time serviceId sessionID = Inl r"
      using s by (auto simp: acquireLock_def)
    have a2: "sessionID \<noteq> [] \<and> parseTime time \<noteq> None \<longrightarrow>
               acquireLock ev st d time serviceId sessionID
                 = Inl (Failure 400 SlotReserved NoPayload)"
      using dup key by (auto simp: acquireLock_def saveTimeLock_def)
    obtain found st1 where ls: "lookupService (e_now ev) st serviceId = (found, st1)"
      by (cases "lookupService (e_now ev) st serviceId")
    then have l1: "locks st1 = locks st"
      using locks_lookupService [of "e_now ev" st serviceId] by simp
    have s1: "saveTimeLock ?l (locks st1) = Inl DuplicateKey
             \<or> saveTimeLock ?l (locks st1) = Inl ValidationError"
      using s l1 by simp
    have a3: "(\<exists>c x p. fst (createBooking ev st serviceId d time sessionID) = Failure c x p)
          \<and> locks (snd (createBooking ev st serviceId d time sessionID)) = locks st"
      using ls l1 s1
      by (auto simp: createBooking_def acquireLock_def split: option.splits)
    from a1 a2 a3 show ?thesis by blast
  qed
  have B: "distinct (map lockKey (locks (snd (createBooking ev st serviceId d time sessionID))))"
    using locks_createBooking [of ev st serviceId d time sessionID] inv
    by (auto dest: saveTimeLock_distinct [OF inv])
  have C: "distinct (map lockKey (locks (snd (completeBooking ev st q))))"
    using locks_completeBooking [of ev st q] inv
    by (auto simp: deleteOneLock_def intro: distinct_removeFirst)
  have D: "distinct (map lockKey (locks (snd (suspendBooking ev st k sessionID))))"
    using locks_suspendBooking [of ev st k sessionID] inv
    by (auto simp: deleteOneLock_def intro: distinct_removeFirst)
  from A B C D show ?thesis by blast
qed

theorem c1_lock_conflict_witness:
  "distinct (map lockKey (locks exLockedStore))
   \<and> (exDay, ''14:00'', 1) \<in> set (map lockKey (locks exLockedStore))
   \<and> acquireLock exEnv exLockedStore exDay ''14:00'' 1 ''sessionB''
       = Inl (Failure 400 SlotReserved NoPayload)
   \<and> locks (snd (createBooking exEnv exLockedStore 1 exDay ''14:00'' ''sessionB'')) = [exLock]"
proof -
  have h1: "distinct (map lockKey (locks exLockedStore))"
    by (simp add: exLockedStore_def)
  have h2: "(exDay, ''14:00'', 1) \<in> set (map lockKey (locks exLockedStore))"
    by (simp add: exLockedStore_def exLock_def lockKey_def)
  have h3: "''sessionB'' \<noteq> [] \<and> parseTime ''14:00'' \<noteq> None"
    by (simp add: isDigit_def digitVal_def)
  from c1_lock_conflict_and_uniqueness [OF h1, of exDay "''14:00''" 1 exEnv "''sessionB''"] h1 h2 h3
  show ?thesis by (simp add: exLockedStore_def)
qed

section \<open>Creating a booking\<close>

lemma le_foldr_max: "k \<in> set ks \<Longrightarrow> k \<le> foldr max ks (0::nat)"
  by (induction ks) auto

lemma freshId_fresh: "k \<in> set ks \<Longrightarrow> k \<noteq> freshId ks"
  using le_foldr_max [of k ks] by (auto simp: freshId_def)

lemma findBooking_fresh: "findBooking bs (freshId (map b_id bs)) = None"
  unfolding findBooking_def find_None_iff
  using freshId_fresh [of _ "map b_id bs"] by auto

lemma deleteBooking_fresh:
  assumes "b_id nb = freshId (map b_id bs)"
  shows "deleteBooking (freshId (map b_id bs)) (bs @ [nb]) = bs"
proof -
  have "\<forall>b\<in>set bs. b_id b \<noteq> freshId (map b_id bs)"
    using freshId_fresh [of _ "map b_id bs"] by auto
  then have "filter (\<lambda>b. b_id b \<noteq> freshId (map b_id bs)) bs = bs"
    by (simp add: filter_id_conv)
  then show ?thesis using assms by (simp add: deleteBooking_def)
qed

lemma find_snoc:
  "find P (xs @ [x]) = (case find P xs of None \<Rightarrow> (if P x then Some x else None) | Some y \<Rightarrow> Some y)"
  by (induction xs) auto

lemma findBooking_snoc_fresh:
  assumes "b_id nb = freshId (map b_id bs)"
  shows "findBooking (bs @ [nb]) (freshId (map b_id bs)) = Some nb"
  using findBooking_fresh [of bs] assms by (simp add: findBooking_def find_snoc)

lemma totalsKept_trans: "totalsKept cs cs' \<Longrightarrow> totalsKept cs' cs'' \<Longrightarrow> totalsKept cs cs''"
  by metis

lemma totalsKept_saveClient:
  assumes "\<And>x. c_id (f x) = c_id x" and "\<And>x. c_totalBookings (f x) = c_totalBookings x"
  shows "totalsKept cs (saveClient now k f cs)"
  using assms by (auto simp: findClient_saveClient)


lemma findOrCreateClient_keeps:
  assumes "findOrCreateClient ev st q = Inr (k, st')"
  shows "bookings st' = bookings st \<and> totalsKept (clients st) (clients st')"
proof (cases "findByEmail (clients st) (q_email q)")
  case None
  with assms show ?thesis
    by (auto simp: findOrCreateClient_def Let_def findClient_def find_snoc)
next
  case (Some c)
  with assms show ?thesis
    by (auto simp: findOrCreateClient_def Let_def findClient_saveClient split: if_splits)
qed

lemma saveClient_twice:
  "saveClient now k g (saveClient now k f cs) = saveClient now k (\<lambda>c. g ((f c)\<lparr>c_lastModified := now\<rparr>)) cs"
  if "\<And>x. c_id (f x) = c_id x"
  using that by (induction cs) (auto simp: saveClient_def)

text \<open>
  From the new booking on, with the save of the client accepted, the outcome turns on the
  verification mail alone. When the mail is not sent the reply is the error 500, the
  stored bookings are those from before (the booking just saved is deleted) and every
  client has the \<open>totalBookings\<close> from before; when it is sent the reply carries the
  id of the new booking, stored with status \<open>pending\<close> and \<open>verified = false\<close>.
\<close>

lemma storeBooking_mail_fails:
  assumes nomail: "\<not> e_mail ev (freshId (map b_id (bookings st)))"
    and cl: "findClient (clients st) clientId = Some c"
    and ok: "countersValid (c\<lparr>c_totalBookings := c_totalBookings c + 1\<rparr>)"
    and nonneg: "0 \<le> c_totalBookings c"
  shows "fst (storeBooking ev st clientId q serviceId d time) = Failure 500 VerificationNotSent NoPayload
       \<and> bookings (snd (storeBooking ev st clientId q serviceId d time)) = bookings st
       \<and> map c_totalBookings (clients (snd (storeBooking ev st clientId q serviceId d time)))
           = map c_totalBookings (clients st)
       \<and> totalsKept (clients st) (clients (snd (storeBooking ev st clientId q serviceId d time)))"
proof -
  let ?k = "freshId (map b_id (bookings st))"
  let ?nb = "newBooking ev ?k clientId q serviceId d time"
  let ?up = "\<lambda>x. x\<lparr>c_totalBookings := c_totalBookings x + 1\<rparr>"
  let ?down = "\<lambda>x. x\<lparr>c_totalBookings := c_totalBookings x - 1\<rparr>"
  let ?cs3 = "saveClient (e_now ev) clientId ?up (clients st)"
  have idc: "c_id c = clientId" using cl by (rule findClient_id)
  have del: "deleteBooking ?k (bookings st @ [?nb]) = bookings st"
    by (rule deleteBooking_fresh) (simp add: newBooking_def)
  have s1: "saveClientChecked (e_now ev) clientId ?up (clients st) = Some ?cs3"
    using cl ok by (rule saveClientChecked_Some)
  have f3: "findClient ?cs3 clientId = Some ((?up c)\<lparr>c_lastModified := e_now ev\<rparr>)"
    using cl idc by (simp add: findClient_saveClient)
  have v3: "countersValid (?down ((?up c)\<lparr>c_lastModified := e_now ev\<rparr>))"
    using ok nonneg by (simp add: countersValid_def)
  have s2: "saveClientChecked (e_now ev) clientId ?down ?cs3
              = Some (saveClient (e_now ev) clientId ?down ?cs3)"
    using f3 v3 by (rule saveClientChecked_Some)
  have tw: "saveClient (e_now ev) clientId ?down ?cs3
            = saveClient (e_now ev) clientId (\<lambda>x. x) (clients st)"
    by (simp add: saveClient_twice) (simp add: saveClient_def)
  have out: "storeBooking ev st clientId q serviceId d time
      = (Failure 500 VerificationNotSent NoPayload,
         st\<lparr>bookings := bookings st,
            locks := deleteOneLock d time serviceId (q_sessionID q) (locks st),
            clients := saveClient (e_now ev) clientId (\<lambda>x. x) (clients st)\<rparr>)"
    using nomail del s1 s2 tw by (simp add: storeBooking_def Let_def)
  have m: "map c_totalBookings (saveClient (e_now ev) clientId (\<lambda>x. x) (clients st))
            = map c_totalBookings (clients st)"
    by (simp add: saveClient_def comp_def)
  show ?thesis
    unfolding out using m totalsKept_saveClient [of "\<lambda>x. x" "clients st" "e_now ev" clientId]
    by simp
qed

lemma storeBooking_mail_sent:
  assumes mail: "e_mail ev (freshId (map b_id (bookings st)))"
    and cl: "findClient (clients st) clientId = Some c"
    and ok: "countersValid (c\<lparr>c_totalBookings := c_totalBookings c + 1\<rparr>)"
  shows "fst (storeBooking ev st clientId q serviceId d time)
           = Success (BookingRef (freshId (map b_id (bookings st))))
       \<and> findBooking (bookings st) (freshId (map b_id (bookings st))) = None
       \<and> findBooking (bookings (snd (storeBooking ev st clientId q serviceId d time)))
           (freshId (map b_id (bookings st)))
           = Some (newBooking ev (freshId (map b_id (bookings st))) clientId q serviceId d time)
       \<and> b_status (newBooking ev (freshId (map b_id (bookings st))) clientId q serviceId d time)
           = Pending
       \<and> \<not> b_verified (newBooking ev (freshId (map b_id (bookings st))) clientId q serviceId d time)"
proof -
  have s1: "saveClientChecked (e_now ev) clientId
              (\<lambda>x. x\<lparr>c_totalBookings := c_totalBookings x + 1\<rparr>) (clients st)
            = Some (saveClient (e_now ev) clientId
                      (\<lambda>x. x\<lparr>c_totalBookings := c_totalBookings x + 1\<rparr>) (clients st))"
    using cl ok by (rule saveClientChecked_Some)
  show ?thesis
    using mail s1 findBooking_fresh [of "bookings st"]
      findBooking_snoc_fresh [of "newBooking ev (freshId (map b_id (bookings st))) clientId q serviceId d time" "bookings st"]
    by (simp add: storeBooking_def Let_def newBooking_def)
qed

text \<open>
  When the save of the client is refused, nothing that was written before it is taken
  back: the reply is the error 500, the mail is never tried, and the new booking stays.
\<close>

lemma storeBooking_refused:
  assumes cl: "findClient (clients st) clientId = Some c"
    and bad: "\<not> countersValid (c\<lparr>c_totalBookings := c_totalBookings c + 1\<rparr>)"
  shows "storeBooking ev st clientId q serviceId d time
           = (Failure 500 InternalError NoPayload,
              st\<lparr>bookings := bookings st
                    @ [newBooking ev (freshId (map b_id (bookings st))) clientId q serviceId d time],
                 locks := deleteOneLock d time serviceId (q_sessionID q) (locks st)\<rparr>)"
proof -
  have "saveClientChecked (e_now ev) clientId
              (\<lambda>x. x\<lparr>c_totalBookings := c_totalBookings x + 1\<rparr>) (clients st) = None"
    using cl bad by (rule saveClientChecked_None)
  then show ?thesis by (simp add: storeBooking_def Let_def)
qed

lemma lookupService_keeps:
  "bookings (snd (lookupService now st k)) = bookings st
   \<and> clients (snd (lookupService now st k)) = clients st"
  by (auto simp: lookupService_def getService_def Let_def split: option.splits)

text \<open>
  For the whole controller: every reply other than the error 500 of its \<open>catch\<close>
  block leaves the bookings and the \<open>totalBookings\<close> of the stored clients as they
  were when it is a failure, and leaves a new booking, pending and unverified, when it is
  a success.
\<close>

lemma storeBooking_outcomes:
  "(fst (storeBooking ev st clientId q serviceId d time) = Failure 500 VerificationNotSent NoPayload
      \<and> \<not> e_mail ev (freshId (map b_id (bookings st)))
      \<and> bookings (snd (storeBooking ev st clientId q serviceId d time)) = bookings st
      \<and> totalsKept (clients st) (clients (snd (storeBooking ev st clientId q serviceId d time))))
   \<or> (fst (storeBooking ev st clientId q serviceId d time)
         = Success (BookingRef (freshId (map b_id (bookings st))))
      \<and> e_mail ev (freshId (map b_id (bookings st)))
      \<and> findBooking (bookings (snd (storeBooking ev st clientId q serviceId d time)))
           (freshId (map b_id (bookings st)))
           = Some (newBooking ev (freshId (map b_id (bookings st))) clientId q serviceId d time))
   \<or> fst (storeBooking ev st clientId q serviceId d time) = Failure 500 InternalError NoPayload"
proof -
  let ?k = "freshId (map b_id (bookings st))"
  let ?nb = "newBooking ev ?k clientId q serviceId d time"
  let ?up = "\<lambda>x. x\<lparr>c_totalBookings := c_totalBookings x + 1\<rparr>"
  let ?down = "\<lambda>x. x\<lparr>c_totalBookings := c_totalBookings x - 1\<rparr>"
  let ?cs3 = "saveClient (e_now ev) clientId ?up (clients st)"
  have del: "deleteBooking ?k (bookings st @ [?nb]) = bookings st"
    by (rule deleteBooking_fresh) (simp add: newBooking_def)
  have snoc: "findBooking (bookings st @ [?nb]) ?k = Some ?nb"
    by (rule findBooking_snoc_fresh) (simp add: newBooking_def)
  have tw: "saveClient (e_now ev) clientId ?down ?cs3
            = saveClient (e_now ev) clientId (\<lambda>x. x) (clients st)"
    by (simp add: saveClient_twice) (simp add: saveClient_def)
  have kept: "totalsKept (clients st) (saveClient (e_now ev) clientId (\<lambda>x. x) (clients st))"
    using totalsKept_saveClient [of "\<lambda>x. x" "clients st" "e_now ev" clientId] by simp
  show ?thesis
  proof (cases "saveClientChecked (e_now ev) clientId ?up (clients st)")
    case None
    then show ?thesis by (simp add: storeBooking_def Let_def)
  next
    case (Some cs3)
    then have cs3: "cs3 = ?cs3 \<or> (cs3 = clients st \<and> findClient (clients st) clientId = None)"
      by (auto simp: saveClientChecked_def split: option.splits if_splits)
    show ?thesis
    proof (cases "e_mail ev ?k")
      case True
      then show ?thesis using Some snoc by (simp add: storeBooking_def Let_def)
    next
      case False
      show ?thesis
      proof (cases "saveClientChecked (e_now ev) clientId ?down cs3")
        case None
        then show ?thesis using Some False by (simp add: storeBooking_def Let_def)
      next
        case (Some cs5)
        have out: "storeBooking ev st clientId q serviceId d time
              = (Failure 500 VerificationNotSent NoPayload,
                 st\<lparr>bookings := bookings st,
                    locks := deleteOneLock d time serviceId (q_sessionID q) (locks st),
                    clients := cs5\<rparr>)"
          using \<open>saveClientChecked (e_now ev) clientId ?up (clients st) = Some cs3\<close> False Some del
          by (simp add: storeBooking_def Let_def)
        have "totalsKept (clients st) cs5"
          using cs3
        proof
          assume e: "cs3 = ?cs3"
          have "cs5 = saveClient (e_now ev) clientId ?down ?cs3 \<or> cs5 = ?cs3 \<and> findClient ?cs3 clientId = None"
            using Some e by (auto simp: saveClientChecked_def split: option.splits if_splits)
          then show ?thesis
          proof
            assume "cs5 = saveClient (e_now ev) clientId ?down ?cs3"
            then show ?thesis using tw kept by simp
          next
            assume n: "cs5 = ?cs3 \<and> findClient ?cs3 clientId = None"
            then have "findClient (clients st) clientId = None"
              by (simp add: findClient_saveClient)
            then have "?cs3 = clients st"
              by (auto simp: saveClient_def findClient_def find_None_iff intro: map_idI)
            with n show ?thesis by simp
          qed
        next
          assume e: "cs3 = clients st \<and> findClient (clients st) clientId = None"
          then have "cs5 = clients st"
            using Some by (simp add: saveClientChecked_def)
          then show ?thesis by simp
        qed
        then show ?thesis unfolding out using False by simp
      qed
    qed
  qed
qed

lemma submitBooking_outcomes:
  "(\<forall>c x p. fst (submitBooking ev st q serviceId d time) = Failure c x p \<and> x \<noteq> InternalError \<longrightarrow>
       bookings (snd (submitBooking ev st q serviceId d time)) = bookings st
       \<and> totalsKept (clients st) (clients (snd (submitBooking ev st q serviceId d time))))
   \<and> (\<forall>p. fst (submitBooking ev st q serviceId d time) = Success p \<longrightarrow>
        (\<exists>k b. p = BookingRef k \<and> findBooking (bookings st) k = None
           \<and> findBooking (bookings (snd (submitBooking ev st q serviceId d time))) k = Some b
           \<and> b_status b = Pending \<and> \<not> b_verified b))"
proof -
  obtain found st1 where ls: "lookupService (e_now ev) st serviceId = (found, st1)"
    by (cases "lookupService (e_now ev) st serviceId")
  then have k1: "bookings st1 = bookings st" "clients st1 = clients st"
    using lookupService_keeps [of "e_now ev" st serviceId] by simp_all
  show ?thesis
  proof (cases "found = None \<or> \<not> e_rateOk ev")
    case True
    then show ?thesis using ls k1 by (auto simp: submitBooking_def split: option.splits)
  next
    case False
    then obtain sv where sv: "found = Some sv" and rate: "e_rateOk ev" by auto
    show ?thesis
    proof (cases "findOrCreateClient ev st1 q")
      case (Inl r)
      then show ?thesis
        using ls k1 sv rate by (auto simp: submitBooking_def findOrCreateClient_def Let_def
            split: option.splits if_splits)
    next
      case (Inr pr)
      obtain cid st2 where pr: "pr = (cid, st2)" by (cases pr)
      have k2: "bookings st2 = bookings st" "totalsKept (clients st) (clients st2)"
        using findOrCreateClient_keeps [of ev st1 q cid st2] Inr pr k1 by simp_all
      show ?thesis
      proof (cases "quotaExhausted (getDailyEmailUsage (q_email q))")
        case True
        then show ?thesis using ls sv rate Inr pr k2 by (simp add: submitBooking_def)
      next
        case False
        then have out: "submitBooking ev st q serviceId d time
                          = storeBooking ev st2 cid q serviceId d time"
          using ls sv rate Inr pr by (simp add: submitBooking_def)
        from storeBooking_outcomes [of ev st2 cid q serviceId d time]
        show ?thesis
        proof (elim disjE conjE)
          assume f: "fst (storeBooking ev st2 cid q serviceId d time)
                       = Failure 500 VerificationNotSent NoPayload"
            and b: "bookings (snd (storeBooking ev st2 cid q serviceId d time)) = bookings st2"
            and t: "totalsKept (clients st2) (clients (snd (storeBooking ev st2 cid q serviceId d time)))"
          have "totalsKept (clients st) (clients (snd (storeBooking ev st2 cid q serviceId d time)))"
            using totalsKept_trans [OF k2(2) t] .
          then show ?thesis unfolding out using f b k2(1) by simp
        next
          assume f: "fst (storeBooking ev st2 cid q serviceId d time)
                       = Success (BookingRef (freshId (map b_id (bookings st2))))"
            and b: "findBooking (bookings (snd (storeBooking ev st2 cid q serviceId d time)))
                      (freshId (map b_id (bookings st2)))
                      = Some (newBooking ev (freshId (map b_id (bookings st2))) cid q serviceId d time)"
          show ?thesis
            unfolding out using f b k2 findBooking_fresh [of "bookings st"]
            by (simp add: newBooking_def)
        next
          assume "fst (storeBooking ev st2 cid q serviceId d time) = Failure 500 InternalError NoPayload"
          then show ?thesis unfolding out by simp
        qed
      qed
    qed
  qed
qed

lemma completeBooking_outcomes:
  "(\<forall>c x p. fst (completeBooking ev st q) = Failure c x p \<and> x \<noteq> InternalError \<longrightarrow>
       bookings (snd (completeBooking ev st q)) = bookings st
       \<and> totalsKept (clients st) (clients (snd (completeBooking ev st q))))
   \<and> (\<forall>p. fst (completeBooking ev st q) = Success p \<longrightarrow>
        (\<exists>k b. p = BookingRef k \<and> findBooking (bookings st) k = None
           \<and> findBooking (bookings (snd (completeBooking ev st q))) k = Some b
           \<and> b_status b = Pending \<and> \<not> b_verified b))"
proof (cases "resolveRequest ev q")
  case (Inl r)
  then have out: "completeBooking ev st q = (r, st)" by (simp add: completeBooking_def)
  have "\<exists>c x p. r = Failure c x p"
    using Inl by (auto simp: resolveRequest_def Let_def split: option.splits if_splits)
  then show ?thesis unfolding out by auto
next
  case (Inr pr)
  obtain serviceId' d' time' where "pr = (serviceId', d', time')" by (cases pr)
  with Inr have out: "completeBooking ev st q = submitBooking ev st q serviceId' d' time'"
    by (simp add: completeBooking_def)
  show ?thesis unfolding out by (rule submitBooking_outcomes)
qed

text \<open>
  Claim C5. Creation is to be all or nothing: a creation that fails leaves no pending,
  unverified booking behind. The controller takes the new booking back when the
  verification mail fails, and only then. For a client who has reached the bound of 1000
  that the Client schema puts on \<open>totalBookings\<close> (a stored client the schema accepts)
  it saves the booking, releases the lock, and raises the counter without the test that
  \<open>Client.completeBooking\<close> makes; the save of the client is refused, no mail is
  dispatched, and the reply is the error 500 with the new booking left stored, pending
  and unverified. The outcome is the same whether a mail would have gone out or not.
\<close>

theorem c5_creation_leaves_booking_at_counter_bound:
  "findByEmail (clients exFullStore) (q_email exReq) = Some exBusyClient
   \<and> countersValid exBusyClient \<and> \<not> c_isBlocked exBusyClient
   \<and> c_totalBookings exBusyClient = 1000
   \<and> bookings exFullStore = [exBooking]
   \<and> fst (completeBooking exEnv exFullStore exReq) = Failure 500 InternalError NoPayload
   \<and> bookings (snd (completeBooking exEnv exFullStore exReq))
       = [exBooking, newBooking exEnv 2 1 exReq 1 518400000 ''11:00'']
   \<and> clients (snd (completeBooking exEnv exFullStore exReq)) = [exBusyClient]
   \<and> completeBooking exEnvNoMail exFullStore exReq = completeBooking exEnv exFullStore exReq
   \<and> b_id (newBooking exEnv 2 1 exReq 1 518400000 ''11:00'') = 2
   \<and> b_status (newBooking exEnv 2 1 exReq 1 518400000 ''11:00'') = Pending
   \<and> \<not> b_verified (newBooking exEnv 2 1 exReq 1 518400000 ''11:00'')"
proof -
  have h1: "findByEmail (clients exFullStore) (q_email exReq) = Some exBusyClient"
    by (simp add: findByEmail_def toLowerCase_def trim_def isSpace_def exFullStore_def
        exStore_def exReq_def exBusyClient_def exClient_def)
  have h2: "countersValid exBusyClient \<and> \<not> c_isBlocked exBusyClient
            \<and> c_totalBookings exBusyClient = 1000"
    by (simp add: countersValid_def exBusyClient_def exClient_def)
  have h3: "bookings exFullStore = [exBooking]"
    by (simp add: exFullStore_def exStore_def)
  have run: "completeBooking ev exFullStore exReq
      = (Failure 500 InternalError NoPayload,
         exFullStore\<lparr>bookings := [exBooking, newBooking ev 2 1 exReq 1 518400000 ''11:00''],
                      cacheServices := [exService], cacheLastUpdated := 475200000\<rparr>)"
    if "e_now ev = 475200000" and "e_rateOk ev" for ev
    using that
    by (simp add: completeBooking_def resolveRequest_def submitBooking_def lookupService_def
        getService_def cacheLookup_def findService_def findOrCreateClient_def findByEmail_def
        fullPhoneNumber_def trim_def toLowerCase_def isSpace_def quotaExhausted_def
        getDailyEmailUsage_def storeBooking_def freshId_def saveClientChecked_def
        countersValid_def findClient_def deleteOneLock_def
        exFullStore_def exBusyClient_def exStore_def exReq_def exService_def exClient_def
        exBooking_def startOfDay_def msPerDay_def Let_def numeral_2_eq_2)
  have e1: "e_now exEnv = 475200000 \<and> e_rateOk exEnv" by (simp add: exEnv_def)
  have e2: "e_now exEnvNoMail = 475200000 \<and> e_rateOk exEnvNoMail"
    by (simp add: exEnvNoMail_def exEnv_def)
  have n: "newBooking exEnvNoMail 2 1 exReq 1 518400000 ''11:00''
             = newBooking exEnv 2 1 exReq 1 518400000 ''11:00''"
    by (simp add: newBooking_def exEnvNoMail_def)
  have r1: "completeBooking exEnv exFullStore exReq
      = (Failure 500 InternalError NoPayload,
         exFullStore\<lparr>bookings := [exBooking, newBooking exEnv 2 1 exReq 1 518400000 ''11:00''],
                      cacheServices := [exService], cacheLastUpdated := 475200000\<rparr>)"
    using run [of exEnv] e1 by simp
  have r2: "completeBooking exEnvNoMail exFullStore exReq = completeBooking exEnv exFullStore exReq"
    using run [of exEnvNoMail] e2 r1 n by simp
  have c: "clients exFullStore = [exBusyClient]" by (simp add: exFullStore_def exStore_def)
  have nb: "b_id (newBooking exEnv 2 1 exReq 1 518400000 ''11:00'') = 2
            \<and> b_status (newBooking exEnv 2 1 exReq 1 518400000 ''11:00'') = Pending
            \<and> \<not> b_verified (newBooking exEnv 2 1 exReq 1 518400000 ''11:00'')"
    by (simp add: newBooking_def)
  from h1 h2 h3 r2 c nb show ?thesis unfolding r1 by simp
qed

section \<open>The sweep of expired pending bookings\<close>

lemma bookings_sendAutoDeclineEmail:
  "bookings (snd (sendAutoDeclineEmail ev st b)) = bookings st"
  by (auto simp: sendAutoDeclineEmail_def split: option.splits)

lemma bookings_autoDecline:
  "bookings (snd (autoDecline ev st b)) = updateBooking (b_id b) (declinedBySweep ev) (bookings st)"
proof -
  obtain sent st1 where s: "sendAutoDeclineEmail ev st b = (sent, st1)"
    by (cases "sendAutoDeclineEmail ev st b")
  then have "bookings st1 = bookings st"
    using bookings_sendAutoDeclineEmail [of ev st b] by simp
  then show ?thesis
    using s by (auto simp: autoDecline_def Let_def split: option.splits)
qed

lemma bookings_expiredLoop:
  "bookings (snd (expiredLoop ev (r, st) xs))
     = map (\<lambda>b. if b_id b \<in> b_id ` set xs then declinedBySweep ev b else b) (bookings st)"
proof (induction xs arbitrary: r st)
  case Nil
  then show ?case by simp
next
  case (Cons x xs)
  obtain sent st1 where a: "autoDecline ev st x = (sent, st1)"
    by (cases "autoDecline ev st x")
  then have b1: "bookings st1 = updateBooking (b_id x) (declinedBySweep ev) (bookings st)"
    using bookings_autoDecline [of ev st x] by simp
  show ?case
    using a by (simp add: Cons.IH b1 updateBooking_def)
qed

lemma bookings_cleanupExpiredBookings:
  "bookings (snd (cleanupExpiredBookings ev st))
     = map (\<lambda>b. if b_id b \<in> b_id ` {x \<in> set (bookings st).
                                       b_status x = Pending \<and> b_verified x \<and> isExpired ev x}
              then declinedBySweep ev b else b) (bookings st)"
proof -
  let ?xs = "filter (isExpired ev) (filter (\<lambda>b. b_status b = Pending \<and> b_verified b) (bookings st))"
  have set_xs: "set ?xs = {x \<in> set (bookings st). b_status x = Pending \<and> b_verified x \<and> isExpired ev x}"
    by auto
  have "bookings (snd (cleanupExpiredBookings ev st))
          = map (\<lambda>b. if b_id b \<in> b_id ` set ?xs then declinedBySweep ev b else b) (bookings st)"
  proof (cases "?xs = []")
    case True
    then have "cleanupExpiredBookings ev st = (noResult, st)"
      by (simp add: cleanupExpiredBookings_def Let_def del: filter_filter)
    then show ?thesis using True by (simp add: map_idI)
  next
    case False
    then have "filter (\<lambda>b. b_status b = Pending \<and> b_verified b) (bookings st) \<noteq> []"
      by (auto simp: filter_empty_conv)
    with False have "cleanupExpiredBookings ev st = expiredLoop ev (noResult, st) ?xs"
      by (simp add: cleanupExpiredBookings_def Let_def del: filter_filter)
    then show ?thesis by (simp only: bookings_expiredLoop)
  qed
  then show ?thesis unfolding set_xs .
qed

lemma findBooking_distinct:
  assumes "distinct (map b_id bs)" and "b \<in> set bs"
  shows "findBooking bs (b_id b) = Some b"
  using assms unfolding findBooking_def
  by (induction bs) (auto simp: image_iff)

lemma bookings_sweep_distinct:
  assumes "distinct (map b_id (bookings st))"
  shows "bookings (snd (cleanupExpiredBookings ev st))
     = map (\<lambda>b. if b_status b = Pending \<and> b_verified b \<and> isExpired ev b
                then declinedBySweep ev b else b) (bookings st)"
proof -
  have "b_id b \<in> b_id ` {x \<in> set (bookings st). b_status x = Pending \<and> b_verified x \<and> isExpired ev x}
          \<longleftrightarrow> b_status b = Pending \<and> b_verified b \<and> isExpired ev b"
    if "b \<in> set (bookings st)" for b
    using that assms by (auto simp: distinct_map dest: inj_onD)
  then show ?thesis
    unfolding bookings_cleanupExpiredBookings by (intro map_cong refl) simp
qed

text \<open>
  Claim C6. Let the stored bookings have distinct ids. After one run of
  \<open>cleanupExpiredBookings\<close> every booking that was pending and verified with its moment
  (date and time of day) strictly before the current time is stored under its id with
  status \<open>declined\<close> and, as its note, the reason of the automatic decline
  (\<open>Respinsa automat - programarea a expirat la\<close>, the last letter of the first word
  accented) followed by the timestamp of the run in ISO format; every other booking is stored as it was, in particular a pending and
  verified one whose moment is not in the past; and no stored booking is pending,
  verified and past.
\<close>

theorem c6_expired_pending_sweep:
  assumes ids: "distinct (map b_id (bookings st))"
  shows "(\<forall>b\<in>set (bookings st).
            (b_status b = Pending \<and> b_verified b \<and> isExpired ev b \<longrightarrow>
               (\<exists>b'. findBooking (bookings (snd (cleanupExpiredBookings ev st))) (b_id b) = Some b'
                  \<and> b_status b' = Declined
                  \<and> b_notes b'
                      = Some (''Respins'' @ [char_of (196::nat), char_of (131::nat)]
                              @ '' automat - programarea a expirat la '' @ e_iso ev (e_now ev))))
          \<and> (\<not> (b_status b = Pending \<and> b_verified b \<and> isExpired ev b) \<longrightarrow>
               findBooking (bookings (snd (cleanupExpiredBookings ev st))) (b_id b) = Some b))
     \<and> (\<forall>b'\<in>set (bookings (snd (cleanupExpiredBookings ev st))).
           \<not> (b_status b' = Pending \<and> b_verified b' \<and> isExpired ev b'))
     \<and> map b_id (bookings (snd (cleanupExpiredBookings ev st))) = map b_id (bookings st)
     \<and> (isExpired ev b
          \<longleftrightarrow> (\<exists>m. dateTimeOf (b_date b) (b_time b) = Some m \<and> m < e_now ev))"
proof -
  let ?P = "\<lambda>b. b_status b = Pending \<and> b_verified b \<and> isExpired ev b"
  let ?g = "\<lambda>b. if ?P b then declinedBySweep ev b else b"
  have eq: "bookings (snd (cleanupExpiredBookings ev st)) = map ?g (bookings st)"
    using bookings_sweep_distinct [OF ids] .
  have gid: "b_id (?g x) = b_id x" for x by simp
  have fnd: "findBooking (map ?g (bookings st)) (b_id b) = Some (?g b)" if "b \<in> set (bookings st)" for b
  proof -
    have "findBooking (map ?g (bookings st)) (b_id b) = map_option ?g (findBooking (bookings st) (b_id b))"
      unfolding findBooking_def by (rule find_map_key) simp
    then show ?thesis using findBooking_distinct [OF ids that] by simp
  qed
  have A: "\<forall>b\<in>set (bookings st).
            (?P b \<longrightarrow>
               (\<exists>b'. findBooking (bookings (snd (cleanupExpiredBookings ev st))) (b_id b) = Some b'
                  \<and> b_status b' = Declined
                  \<and> b_notes b'
                      = Some (''Respins'' @ [char_of (196::nat), char_of (131::nat)]
                              @ '' automat - programarea a expirat la '' @ e_iso ev (e_now ev))))
          \<and> (\<not> ?P b \<longrightarrow>
               findBooking (bookings (snd (cleanupExpiredBookings ev st))) (b_id b) = Some b)"
    unfolding eq using fnd by (auto simp: autoDeclineNote_def)
  have B: "\<forall>b'\<in>set (bookings (snd (cleanupExpiredBookings ev st))). \<not> ?P b'"
    unfolding eq by auto
  have C: "map b_id (bookings (snd (cleanupExpiredBookings ev st))) = map b_id (bookings st)"
    unfolding eq by (simp add: comp_def)
  have D: "isExpired ev b \<longleftrightarrow> (\<exists>m. dateTimeOf (b_date b) (b_time b) = Some m \<and> m < e_now ev)"
    by (auto simp: isExpired_def split: option.splits)
  from A B C D show ?thesis by blast
qed

theorem c6_expired_pending_sweep_witness:
  "distinct (map b_id (bookings exStore))
   \<and> b_status exBooking = Pending \<and> b_verified exBooking \<and> isExpired exEnv exBooking
   \<and> map b_status (bookings (snd (cleanupExpiredBookings exEnv exStore))) = [Declined]
   \<and> map b_notes (bookings (snd (cleanupExpiredBookings exEnv exStore)))
       = [Some (''Respins'' @ [char_of (196::nat), char_of (131::nat)]
                @ '' automat - programarea a expirat la 1970-01-06T12:00:00.000Z'')]"
proof -
  have h1: "distinct (map b_id (bookings exStore))"
    by (simp add: exStore_def)
  have h2: "isExpired exEnv exBooking"
    by (simp add: isExpired_def time_defs exBooking_def exDay_def exEnv_def)
  have h3: "b_status exBooking = Pending \<and> b_verified exBooking"
    by (simp add: exBooking_def)
  have h4: "bookings exStore = [exBooking]" by (simp add: exStore_def)
  have "\<exists>b'. findBooking (bookings (snd (cleanupExpiredBookings exEnv exStore))) (b_id exBooking) = Some b'
          \<and> b_status b' = Declined
          \<and> b_notes b' = Some (''Respins'' @ [char_of (196::nat), char_of (131::nat)]
                @ '' automat - programarea a expirat la '' @ e_iso exEnv (e_now exEnv))"
    using c6_expired_pending_sweep [OF h1, of exEnv] h2 h3 h4 by simp
  moreover have "map b_id (bookings (snd (cleanupExpiredBookings exEnv exStore))) = [b_id exBooking]"
    using c6_expired_pending_sweep [OF h1, of exEnv] h4 by simp
  moreover have "e_iso exEnv (e_now exEnv) = ''1970-01-06T12:00:00.000Z''"
    by (simp add: exEnv_def)
  ultimately show ?thesis
    using h1 h2 h3 by (auto simp: findBooking_def map_eq_Cons_conv)
qed

section \<open>The client of an automatically declined booking\<close>







section \<open>Locks in the availability check\<close>




section \<open>Blocking a date that has bookings\<close>

lemma startOfDay_idem: "startOfDay (startOfDay x) = startOfDay x"
  by (simp add: startOfDay_def msPerDay_def)

lemma bookingsOfDay_startOfDay: "bookingsOfDay st (startOfDay x) = bookingsOfDay st x"
  by (simp add: bookingsOfDay_def endOfDay_def startOfDay_idem)

lemma saveBlock_failure_keeps_store:
  "fst (saveBlock ev st d rq) = Failure c x p \<Longrightarrow> snd (saveBlock ev st d rq) = st"
  by (simp add: saveBlock_def Let_def split: option.splits if_splits)

lemma validateBlock_failure: "validateBlock ev rq = Inl r \<Longrightarrow> \<exists>c x p. r = Failure c x p"
  by (auto simp: validateBlock_def split: option.splits if_splits)

lemma blockDate_failure_keeps_store:
  assumes "fst (blockDate ev st rq) = Failure c x p"
  shows "snd (blockDate ev st rq) = st"
proof (cases "validateBlock ev rq")
  case (Inl r)
  then show ?thesis by (simp add: blockDate_def)
next
  case (Inr d)
  then show ?thesis
    using assms saveBlock_failure_keeps_store [of ev st d rq c x p]
    by (auto simp: blockDate_def Let_def split: if_splits)
qed

lemma checkExistingBookings_fullDay:
  assumes "b \<in> set (bookingsOfDay st d)"
  shows "bc_hasConflict (checkExistingBookings st d True hours)
       \<and> fullDayInfo st b \<in> set (bc_conflictingBookings (checkExistingBookings st d True hours))"
  using assms by (auto simp: checkExistingBookings_def Let_def)

lemma checkExistingBookings_hours:
  assumes "b \<in> set (bookingsOfDay st d)"
    and "findService (services st) (b_service b) = Some sv"
    and "h \<in> set hours" and "hourOverlaps sv b h"
  shows "bc_hasConflict (checkExistingBookings st d False hours)
       \<and> \<lparr>ci_id = b_id b, ci_clientName = b_clientName b, ci_time = b_time b,
          ci_service = s_name sv, ci_status = b_status b, ci_conflictingHour = Some h\<rparr>
           \<in> set (bc_conflictingBookings (checkExistingBookings st d False hours))"
proof -
  let ?ci = "\<lparr>ci_id = b_id b, ci_clientName = b_clientName b, ci_time = b_time b,
          ci_service = s_name sv, ci_status = b_status b, ci_conflictingHour = Some h\<rparr>"
  have "?ci \<in> set (hourConflicts st hours b)"
    using assms(2-4) by (auto simp: hourConflicts_def)
  then have mem: "?ci \<in> set (concat (map (hourConflicts st hours) (bookingsOfDay st d)))"
    using assms(1) by auto
  then have ne: "concat (map (hourConflicts st hours) (bookingsOfDay st d)) \<noteq> []"
    by (metis empty_iff list.set(1))
  have ne2: "bookingsOfDay st d \<noteq> []" using assms(1) by auto
  show ?thesis
    using mem ne ne2 by (simp add: checkExistingBookings_def Let_def)
qed


lemma validateBlock_ok:
  assumes "r_date rq = Some date"
    and "startOfDay (e_now ev) \<le> startOfDay date"
    and "r_isFullDay rq \<or> (r_hours rq \<noteq> [] \<and> list_all (\<lambda>h. parseTime h \<noteq> None) (r_hours rq)
                             \<and> length (r_hours rq) \<le> 20)"
  shows "validateBlock ev rq = Inr (startOfDay date)"
proof -
  have "find (\<lambda>h. parseTime h = None) (r_hours rq) = None" if "\<not> r_isFullDay rq"
    using that assms(3) by (auto simp: find_None_iff list_all_iff)
  then show ?thesis
    using assms by (auto simp: validateBlock_def)
qed

text \<open>
  Claim C9. Let a request to block a date pass the input checks (a date not before
  today; the whole day, or between one and twenty well-formed hours), and let a booking
  on that date be pending or confirmed. If the whole day is to be blocked, or one of the
  hours, taken as a slot of 30 minutes, intersects the booking's interval (its time plus
  the positive duration of its service), then \<open>blockDate\<close> answers 409 with a list of
  conflicting bookings that names this one by id, client name, time, service and status,
  and the store is unchanged. Any reply of \<open>blockDate\<close> that is a failure leaves the
  store unchanged, so no block is created or updated.
\<close>

theorem c9_block_refused_on_conflict:
  assumes date: "r_date rq = Some date"
    and future: "startOfDay (e_now ev) \<le> startOfDay date"
    and wf: "r_isFullDay rq \<or> (r_hours rq \<noteq> [] \<and> list_all (\<lambda>h. parseTime h \<noteq> None) (r_hours rq)
                             \<and> length (r_hours rq) \<le> 20)"
    and stored: "b \<in> set (bookings st)"
    and day: "startOfDay date \<le> b_date b \<and> b_date b \<le> endOfDay date"
    and live: "b_status b = Pending \<or> b_status b = Confirmed"
    and conflict: "r_isFullDay rq \<or>
       (\<exists>sv h bt ht. findService (services st) (b_service b) = Some sv \<and> 0 < s_duration sv
           \<and> h \<in> set (r_hours rq) \<and> parseTime (b_time b) = Some bt \<and> parseTime h = Some ht
           \<and> timeInMinutes ht < timeInMinutes bt + s_duration sv
           \<and> timeInMinutes bt < timeInMinutes ht + 30)"
  shows "(\<exists>cs. blockDate ev st rq = (Failure 409 BlockConflict (Conflicts cs), st)
            \<and> (\<exists>ci\<in>set cs. ci_id ci = b_id b \<and> ci_clientName ci = b_clientName b
                  \<and> ci_time ci = b_time b \<and> ci_status ci = b_status b
                  \<and> ci_service ci = (case findService (services st) (b_service b) of
                                       None \<Rightarrow> ''Unknown Service'' | Some sv \<Rightarrow> s_name sv)))
     \<and> (\<forall>rq' c x p. fst (blockDate ev st rq') = Failure c x p \<longrightarrow> snd (blockDate ev st rq') = st)"
proof -
  let ?d = "startOfDay date"
  have v: "validateBlock ev rq = Inr ?d"
    using validateBlock_ok [OF date future wf] .
  have "b \<in> set (bookingsOfDay st date)"
    using stored day live by (auto simp: bookingsOfDay_def)
  then have mem: "b \<in> set (bookingsOfDay st ?d)"
    by (simp only: bookingsOfDay_startOfDay)
  let ?check = "checkExistingBookings st ?d (r_isFullDay rq) (r_hours rq)"
  have out: "bc_hasConflict ?check \<Longrightarrow>
             blockDate ev st rq = (Failure 409 BlockConflict (Conflicts (bc_conflictingBookings ?check)), st)"
    using v by (simp add: blockDate_def Let_def)
  have A: "\<exists>cs. blockDate ev st rq = (Failure 409 BlockConflict (Conflicts cs), st)
            \<and> (\<exists>ci\<in>set cs. ci_id ci = b_id b \<and> ci_clientName ci = b_clientName b
                  \<and> ci_time ci = b_time b \<and> ci_status ci = b_status b
                  \<and> ci_service ci = (case findService (services st) (b_service b) of
                                       None \<Rightarrow> ''Unknown Service'' | Some sv \<Rightarrow> s_name sv))"
  proof (cases "r_isFullDay rq")
    case True
    from checkExistingBookings_fullDay [OF mem, of "r_hours rq"] True
    have c: "bc_hasConflict ?check" and i: "fullDayInfo st b \<in> set (bc_conflictingBookings ?check)"
      by simp_all
    show ?thesis
      using out [OF c] i by (intro exI [of _ "bc_conflictingBookings ?check"] conjI bexI [of _ "fullDayInfo st b"])
        (simp_all add: fullDayInfo_def)
  next
    case False
    with conflict obtain sv h bt ht where
      sv: "findService (services st) (b_service b) = Some sv" and pos: "0 < s_duration sv"
      and h: "h \<in> set (r_hours rq)" and bt: "parseTime (b_time b) = Some bt"
      and ht: "parseTime h = Some ht"
      and i1: "timeInMinutes ht < timeInMinutes bt + s_duration sv"
      and i2: "timeInMinutes bt < timeInMinutes ht + 30"
      by blast
    have ov: "hourOverlaps sv b h"
      using bt ht i1 i2 pos by (simp add: hourOverlaps_def overlaps_half_open)
    let ?ci = "\<lparr>ci_id = b_id b, ci_clientName = b_clientName b, ci_time = b_time b,
          ci_service = s_name sv, ci_status = b_status b, ci_conflictingHour = Some h\<rparr>"
    from checkExistingBookings_hours [OF mem sv h ov] False
    have c: "bc_hasConflict ?check" and i: "?ci \<in> set (bc_conflictingBookings ?check)"
      by simp_all
    show ?thesis
      using out [OF c] i sv by (intro exI [of _ "bc_conflictingBookings ?check"] conjI bexI [of _ ?ci])
        simp_all
  qed
  have B: "\<forall>rq' c x p. fst (blockDate ev st rq') = Failure c x p \<longrightarrow> snd (blockDate ev st rq') = st"
    using blockDate_failure_keeps_store by blast
  from A B show ?thesis by blast
qed

theorem c9_block_refused_witness:
  "r_date exBlockReq = Some exDay \<and> startOfDay (e_now exEarlyEnv) \<le> startOfDay exDay
   \<and> r_isFullDay exBlockReq \<and> exBooking \<in> set (bookings exStore)
   \<and> b_status exBooking = Pending
   \<and> fst (blockDate exEarlyEnv exStore exBlockReq)
       = Failure 409 BlockConflict (Conflicts [fullDayInfo exStore exBooking])
   \<and> snd (blockDate exEarlyEnv exStore exBlockReq) = exStore"
proof -
  have h1: "r_date exBlockReq = Some exDay" by (simp add: exBlockReq_def)
  have h2: "startOfDay (e_now exEarlyEnv) \<le> startOfDay exDay"
    by (simp add: exEarlyEnv_def exEnv_def exDay_def startOfDay_def msPerDay_def)
  have h3: "r_isFullDay exBlockReq \<or> (r_hours exBlockReq \<noteq> []
              \<and> list_all (\<lambda>h. parseTime h \<noteq> None) (r_hours exBlockReq)
              \<and> length (r_hours exBlockReq) \<le> 20)"
    by (simp add: exBlockReq_def)
  have h4: "exBooking \<in> set (bookings exStore)" by (simp add: exStore_def)
  have h5: "startOfDay exDay \<le> b_date exBooking \<and> b_date exBooking \<le> endOfDay exDay"
    by (simp add: exBooking_def exDay_def startOfDay_def endOfDay_def msPerDay_def)
  have h6: "b_status exBooking = Pending \<or> b_status exBooking = Confirmed"
    by (simp add: exBooking_def)
  have h7: "r_isFullDay exBlockReq \<or>
       (\<exists>sv h bt ht. findService (services exStore) (b_service exBooking) = Some sv
           \<and> 0 < s_duration sv
           \<and> h \<in> set (r_hours exBlockReq) \<and> parseTime (b_time exBooking) = Some bt
           \<and> parseTime h = Some ht
           \<and> timeInMinutes ht < timeInMinutes bt + s_duration sv
           \<and> timeInMinutes bt < timeInMinutes ht + 30)"
    by (simp add: exBlockReq_def)
  have ev: "checkExistingBookings exStore (startOfDay exDay) True []
              = \<lparr>bc_hasConflict = True, bc_conflictingBookings = [fullDayInfo exStore exBooking]\<rparr>"
    by (simp add: checkExistingBookings_def bookingsOfDay_def exStore_def exBooking_def exDay_def
        startOfDay_def endOfDay_def msPerDay_def Let_def)
  from c9_block_refused_on_conflict [OF h1 h2 h3 h4 h5 h6 h7]
  obtain cs where o: "blockDate exEarlyEnv exStore exBlockReq
                        = (Failure 409 BlockConflict (Conflicts cs), exStore)" by blast
  have "cs = [fullDayInfo exStore exBooking]"
    using o ev validateBlock_ok [OF h1 h2 h3]
    by (simp add: blockDate_def Let_def exBlockReq_def)
  with o h1 h2 h4 h6 show ?thesis by (simp add: exBlockReq_def exBooking_def)
qed

section \<open>The sweep before the list of available slots\<close>

lemma snd_runFullCleanup:
  "snd (runFullCleanup ev st)
     = snd (cleanupExpiredBlockedDates ev
         (snd (cleanupDeclinedBookings ev
           (snd (cleanupUnconfirmedBookings ev
             (snd (cleanupExpiredBookings ev st)))))))"
  by (simp add: runFullCleanup_def Let_def split_beta)

lemma cleanupExpiredBookings_noop:
  assumes "\<forall>b\<in>set (bookings st). \<not> (b_status b = Pending \<and> b_verified b \<and> isExpired ev b)"
  shows "cleanupExpiredBookings ev st = (noResult, st)"
proof -
  have "filter (isExpired ev) (filter (\<lambda>b. b_status b = Pending \<and> b_verified b) (bookings st)) = []"
    using assms by (auto simp: filter_empty_conv)
  then show ?thesis
    by (simp add: cleanupExpiredBookings_def Let_def del: filter_filter)
qed

lemma cleanupUnconfirmedBookings_noop:
  assumes "\<forall>b\<in>set (bookings st). \<not> (b_status b = Pending \<and> \<not> b_verified b
                                     \<and> b_createdAt b < e_now ev - 15 * msPerMinute)"
  shows "snd (cleanupUnconfirmedBookings ev st) = st"
proof -
  have "filter (\<lambda>b. b_status b = Pending \<and> \<not> b_verified b
                     \<and> b_createdAt b < e_now ev - 15 * msPerMinute) (bookings st) = []"
    using assms by (auto simp: filter_empty_conv)
  then show ?thesis by (simp add: cleanupUnconfirmedBookings_def Let_def)
qed

lemma cleanupDeclinedBookings_noop:
  assumes "\<forall>b\<in>set (bookings st). \<not> (b_status b = Declined \<and> b_createdAt b < e_now ev - 7 * msPerDay)"
  shows "snd (cleanupDeclinedBookings ev st) = st"
proof -
  have "filter (\<lambda>b. \<not> (b_status b = Declined \<and> b_createdAt b < e_now ev - 7 * msPerDay)) (bookings st)
          = bookings st"
    using assms by (simp add: filter_id_conv)
  then show ?thesis by (simp add: cleanupDeclinedBookings_def Let_def)
qed

lemma cleanupExpiredBlockedDates_noop:
  assumes "\<forall>x\<in>set (blockedDates st). \<not> bd_date x < endOfDay (e_now ev - msPerDay)"
  shows "snd (cleanupExpiredBlockedDates ev st) = st"
proof -
  have "filter (\<lambda>x. \<not> bd_date x < endOfDay (e_now ev - msPerDay)) (blockedDates st) = blockedDates st"
    using assms by (simp add: filter_id_conv)
  then show ?thesis by (simp add: cleanupExpiredBlockedDates_def Let_def)
qed

lemma bookings_deleteUnconfirmed:
  "bookings (deleteUnconfirmed ev st b) = deleteBooking (b_id b) (bookings st)"
  by (simp add: deleteUnconfirmed_def Let_def split: option.splits)

lemma bookings_foldl_deleteUnconfirmed:
  "bookings (foldl (deleteUnconfirmed ev) st xs)
     = filter (\<lambda>b. b_id b \<notin> b_id ` set xs) (bookings st)"
proof (induction xs arbitrary: st)
  case Nil
  then show ?case by simp
next
  case (Cons x xs)
  show ?case
    by (simp add: Cons.IH bookings_deleteUnconfirmed deleteBooking_def conj_commute)
qed

lemma bookings_cleanupUnconfirmedBookings:
  "bookings (snd (cleanupUnconfirmedBookings ev st))
     = filter (\<lambda>b. b_id b \<notin> b_id ` {x \<in> set (bookings st). b_status x = Pending \<and> \<not> b_verified x
                                       \<and> b_createdAt x < e_now ev - 15 * msPerMinute})
         (bookings st)"
  by (simp add: cleanupUnconfirmedBookings_def Let_def bookings_foldl_deleteUnconfirmed)

text \<open>The passes that work on bookings leave the other collections alone.\<close>

lemma sameRest_refl: "sameRest st st"
  by simp

lemma sameRest_trans: "sameRest a b \<Longrightarrow> sameRest b c \<Longrightarrow> sameRest a c"
  by simp

lemma sameRest_autoDecline: "sameRest st (snd (autoDecline ev st b))"
  by (auto simp: autoDecline_def sendAutoDeclineEmail_def Let_def
      split: option.splits prod.splits)

lemma sameRest_expiredLoop: "sameRest st (snd (expiredLoop ev (r, st) xs))"
proof (induction xs arbitrary: r st)
  case Nil
  then show ?case by simp
next
  case (Cons x xs)
  obtain sent st1 where a: "autoDecline ev st x = (sent, st1)"
    by (cases "autoDecline ev st x")
  then have "sameRest st st1" using sameRest_autoDecline [of ev st x] by simp
  then show ?case using a Cons.IH [of _ st1] by simp
qed

lemma sameRest_cleanupExpiredBookings: "sameRest st (snd (cleanupExpiredBookings ev st))"
  using sameRest_expiredLoop [of ev noResult st]
  by (auto simp: cleanupExpiredBookings_def Let_def simp del: filter_filter)

lemma sameRest_deleteUnconfirmed: "sameRest st (deleteUnconfirmed ev st b)"
  by (auto simp: deleteUnconfirmed_def Let_def split: option.splits)

lemma sameRest_foldl_deleteUnconfirmed: "sameRest st (foldl (deleteUnconfirmed ev) st xs)"
proof (induction xs arbitrary: st)
  case Nil
  then show ?case by simp
next
  case (Cons x xs)
  show ?case
    using sameRest_deleteUnconfirmed [of ev st x] Cons.IH [of "deleteUnconfirmed ev st x"] by simp
qed

lemma sameRest_cleanupUnconfirmedBookings: "sameRest st (snd (cleanupUnconfirmedBookings ev st))"
  using sameRest_foldl_deleteUnconfirmed [of ev st]
  by (simp add: cleanupUnconfirmedBookings_def Let_def)

lemma sameRest_cleanupDeclinedBookings: "sameRest st (snd (cleanupDeclinedBookings ev st))"
  by (simp add: cleanupDeclinedBookings_def Let_def)


lemma swept_store:
  fixes ev st
  defines "st4 \<equiv> snd (runFullCleanup ev st)"
  shows "(\<forall>b\<in>set (bookings st4). \<not> (b_status b = Pending \<and> b_verified b \<and> isExpired ev b))
     \<and> (\<forall>b\<in>set (bookings st4). \<not> (b_status b = Pending \<and> \<not> b_verified b
                                      \<and> b_createdAt b < e_now ev - 15 * msPerMinute))
     \<and> (\<forall>b\<in>set (bookings st4). \<not> (b_status b = Declined \<and> b_createdAt b < e_now ev - 7 * msPerDay))
     \<and> (\<forall>x\<in>set (blockedDates st4). \<not> bd_date x < endOfDay (e_now ev - msPerDay))
     \<and> services st4 = services st \<and> locks st4 = locks st
     \<and> cacheServices st4 = cacheServices st \<and> cacheLastUpdated st4 = cacheLastUpdated st"
proof -
  define st1 where "st1 = snd (cleanupExpiredBookings ev st)"
  define st2 where "st2 = snd (cleanupUnconfirmedBookings ev st1)"
  define st3 where "st3 = snd (cleanupDeclinedBookings ev st2)"
  have st4: "st4 = snd (cleanupExpiredBlockedDates ev st3)"
    unfolding st4_def st3_def st2_def st1_def by (rule snd_runFullCleanup)
  have r1: "sameRest st st1" unfolding st1_def by (rule sameRest_cleanupExpiredBookings)
  have r2: "sameRest st1 st2" unfolding st2_def by (rule sameRest_cleanupUnconfirmedBookings)
  have r3: "sameRest st2 st3" unfolding st3_def by (rule sameRest_cleanupDeclinedBookings)
  have b1: "\<forall>b\<in>set (bookings st1). \<not> (b_status b = Pending \<and> b_verified b \<and> isExpired ev b)"
    unfolding st1_def bookings_cleanupExpiredBookings by auto
  have s2: "set (bookings st2) \<subseteq> set (bookings st1)"
    unfolding st2_def bookings_cleanupUnconfirmedBookings by auto
  have b2: "\<forall>b\<in>set (bookings st2). \<not> (b_status b = Pending \<and> \<not> b_verified b
                                      \<and> b_createdAt b < e_now ev - 15 * msPerMinute)"
    unfolding st2_def bookings_cleanupUnconfirmedBookings by auto
  have b3eq: "bookings st3
                = filter (\<lambda>b. \<not> (b_status b = Declined \<and> b_createdAt b < e_now ev - 7 * msPerDay))
                    (bookings st2)"
    unfolding st3_def by (simp add: cleanupDeclinedBookings_def Let_def)
  have s3: "set (bookings st3) \<subseteq> set (bookings st2)" unfolding b3eq by auto
  have b3: "\<forall>b\<in>set (bookings st3). \<not> (b_status b = Declined \<and> b_createdAt b < e_now ev - 7 * msPerDay)"
    unfolding b3eq by auto
  have b4: "bookings st4 = bookings st3" and r4: "services st4 = services st3" "locks st4 = locks st3"
    "cacheServices st4 = cacheServices st3" "cacheLastUpdated st4 = cacheLastUpdated st3"
    and d4: "blockedDates st4
               = filter (\<lambda>x. \<not> bd_date x < endOfDay (e_now ev - msPerDay)) (blockedDates st3)"
    unfolding st4 by (simp_all add: cleanupExpiredBlockedDates_def Let_def)
  have A: "\<forall>b\<in>set (bookings st4). \<not> (b_status b = Pending \<and> b_verified b \<and> isExpired ev b)"
    using b1 s2 s3 unfolding b4 by blast
  have B: "\<forall>b\<in>set (bookings st4). \<not> (b_status b = Pending \<and> \<not> b_verified b
                                      \<and> b_createdAt b < e_now ev - 15 * msPerMinute)"
    using b2 s3 unfolding b4 by blast
  have C: "\<forall>b\<in>set (bookings st4). \<not> (b_status b = Declined \<and> b_createdAt b < e_now ev - 7 * msPerDay)"
    using b3 unfolding b4 by blast
  have D: "\<forall>x\<in>set (blockedDates st4). \<not> bd_date x < endOfDay (e_now ev - msPerDay)"
    unfolding d4 by auto
  have E: "services st4 = services st \<and> locks st4 = locks st
     \<and> cacheServices st4 = cacheServices st \<and> cacheLastUpdated st4 = cacheLastUpdated st"
    using r1 r2 r3 r4 by simp
  from A B C D E show ?thesis by blast
qed

lemma runFullCleanup_noop:
  assumes "\<forall>b\<in>set (bookings st). \<not> (b_status b = Pending \<and> b_verified b \<and> isExpired ev b)"
    and "\<forall>b\<in>set (bookings st). \<not> (b_status b = Pending \<and> \<not> b_verified b
                                      \<and> b_createdAt b < e_now ev - 15 * msPerMinute)"
    and "\<forall>b\<in>set (bookings st). \<not> (b_status b = Declined \<and> b_createdAt b < e_now ev - 7 * msPerDay)"
    and "\<forall>x\<in>set (blockedDates st). \<not> bd_date x < endOfDay (e_now ev - msPerDay)"
  shows "snd (runFullCleanup ev st) = st"
  unfolding snd_runFullCleanup
  using cleanupExpiredBookings_noop [OF assms(1)] cleanupUnconfirmedBookings_noop [OF assms(2)]
    cleanupDeclinedBookings_noop [OF assms(3)] cleanupExpiredBlockedDates_noop [OF assms(4)]
  by simp

lemma lookupService_shape:
  "snd (lookupService now st k) = st
   \<or> (now - cacheLastUpdated st > 60000
      \<and> snd (lookupService now st k) = st\<lparr>cacheServices := services st, cacheLastUpdated := now\<rparr>)"
  by (auto simp: lookupService_def getService_def Let_def split: option.splits)

lemma lookupService_idem:
  "lookupService now (snd (lookupService now st k)) k = lookupService now st k"
  by (auto simp: lookupService_def getService_def Let_def split: option.splits)


lemma getAvailableTimeSlots_unfold:
  "getAvailableTimeSlots ev st d serviceId
     = (let p = lookupService (e_now ev) (snd (runFullCleanup ev st)) serviceId
        in case fst p of
             None \<Rightarrow> (Failure 404 ServiceNotFound NoPayload, snd p)
           | Some sv \<Rightarrow>
               if getDay d = 0 then (Success (TimeSlots []), snd p)
               else if fullDayBlocked (snd p) d then (Success (TimeSlots []), snd p)
               else (Success (TimeSlots (availableSlots (e_now ev) (snd p) d (s_duration sv))), snd p))"
  by (simp add: getAvailableTimeSlots_def Let_def split_beta)

lemma snd_getAvailableTimeSlots:
  "snd (getAvailableTimeSlots ev st d serviceId)
     = snd (lookupService (e_now ev) (snd (runFullCleanup ev st)) serviceId)"
  by (simp add: getAvailableTimeSlots_unfold Let_def split: option.splits)

lemma runFullCleanup_after_call:
  "snd (runFullCleanup ev (snd (getAvailableTimeSlots ev st d serviceId)))
     = snd (getAvailableTimeSlots ev st d serviceId)"
proof -
  let ?st4 = "snd (runFullCleanup ev st)"
  let ?st2 = "snd (lookupService (e_now ev) ?st4 serviceId)"
  have same: "bookings ?st2 = bookings ?st4 \<and> blockedDates ?st2 = blockedDates ?st4"
    using lookupService_shape [of "e_now ev" ?st4 serviceId] by auto
  have "snd (runFullCleanup ev ?st2) = ?st2"
    using swept_store [of ev st] same by (intro runFullCleanup_noop) simp_all
  then show ?thesis by (simp only: snd_getAvailableTimeSlots)
qed

text \<open>
  Claim C8, as the code has it. The list of available slots is computed by reading
  only, but \<open>getAvailableTimeSlots\<close> first runs the whole cleanup sweep and may
  refresh the service cache: the state after a call is the swept state with the cache
  looked up, so a call writes exactly when the sweep has something to do or the cache is
  stale. A second call at the same clock time, with no other write in between, changes
  nothing further and gives the same reply, with the same slots in the same order.
\<close>

theorem c8_available_slots_after_sweep:
  "snd (getAvailableTimeSlots ev st d serviceId)
     = snd (lookupService (e_now ev) (snd (runFullCleanup ev st)) serviceId)
   \<and> (snd (runFullCleanup ev st) = st \<and> \<not> e_now ev - cacheLastUpdated st > 60000 \<longrightarrow>
        snd (getAvailableTimeSlots ev st d serviceId) = st)
   \<and> getAvailableTimeSlots ev (snd (getAvailableTimeSlots ev st d serviceId)) d serviceId
       = getAvailableTimeSlots ev st d serviceId"
proof -
  let ?st2 = "snd (getAvailableTimeSlots ev st d serviceId)"
  have A: "?st2 = snd (lookupService (e_now ev) (snd (runFullCleanup ev st)) serviceId)"
    by (rule snd_getAvailableTimeSlots)
  have B: "snd (runFullCleanup ev st) = st \<and> \<not> e_now ev - cacheLastUpdated st > 60000 \<longrightarrow> ?st2 = st"
    using lookupService_shape [of "e_now ev" st serviceId] unfolding A by auto
  have "lookupService (e_now ev) (snd (runFullCleanup ev ?st2)) serviceId
          = lookupService (e_now ev) ?st2 serviceId"
    by (simp only: runFullCleanup_after_call)
  also have "\<dots> = lookupService (e_now ev) (snd (runFullCleanup ev st)) serviceId"
    unfolding A by (rule lookupService_idem)
  finally have same: "lookupService (e_now ev) (snd (runFullCleanup ev ?st2)) serviceId
                        = lookupService (e_now ev) (snd (runFullCleanup ev st)) serviceId" .
  have C: "getAvailableTimeSlots ev ?st2 d serviceId = getAvailableTimeSlots ev st d serviceId"
    by (subst getAvailableTimeSlots_unfold, subst same, subst getAvailableTimeSlots_unfold [symmetric])
      (rule refl)
  from A B C show ?thesis by blast
qed

theorem c8_available_slots_witness:
  "snd (runFullCleanup exEnv exFreshStore) = exFreshStore
   \<and> \<not> e_now exEnv - cacheLastUpdated exFreshStore > 60000
   \<and> snd (getAvailableTimeSlots exEnv exFreshStore exDay 1) = exFreshStore"
proof -
  have bs: "bookings exFreshStore = [exBooking\<lparr>b_status := Confirmed\<rparr>]"
    and ds: "blockedDates exFreshStore = []"
    by (simp_all add: exFreshStore_def exConfirmedStore_def exStore_def)
  have h1: "snd (runFullCleanup exEnv exFreshStore) = exFreshStore"
    by (rule runFullCleanup_noop) (simp_all add: bs ds)
  have h2: "\<not> e_now exEnv - cacheLastUpdated exFreshStore > 60000"
    by (simp add: exEnv_def exFreshStore_def)
  from c8_available_slots_after_sweep [of exEnv exFreshStore exDay 1] h1 h2
  show ?thesis by blast
qed

text \<open>
  The claim as stated fails: asking on Tuesday noon for the slots of Wednesday declines
  the pending booking of Monday, whose time has passed.
\<close>

theorem c8_available_slots_counterexample:
  "map b_status (bookings exStore) = [Pending]
   \<and> map b_status (bookings (snd (getAvailableTimeSlots exEnv exStore 518400000 1))) = [Declined]"
proof -
  have e: "isExpired exEnv exBooking"
    by (simp add: isExpired_def time_defs exBooking_def exDay_def exEnv_def)
  have p: "b_status exBooking = Pending \<and> b_verified exBooking"
    by (simp add: exBooking_def)
  have en: "e_now exEnv = 475200000" by (simp add: exEnv_def)
  have ids: "distinct (map b_id (bookings exStore))"
    by (simp add: exStore_def)
  have b1: "bookings (snd (cleanupExpiredBookings exEnv exStore))
              = [exBooking\<lparr>b_status := Declined, b_notes := Some (autoDeclineNote exEnv)\<rparr>]"
    using e p by (simp add: bookings_sweep_distinct [OF ids]) (simp add: exStore_def)
  have n2: "snd (cleanupUnconfirmedBookings exEnv (snd (cleanupExpiredBookings exEnv exStore)))
              = snd (cleanupExpiredBookings exEnv exStore)"
    by (rule cleanupUnconfirmedBookings_noop) (simp add: b1)
  have n3: "snd (cleanupDeclinedBookings exEnv (snd (cleanupExpiredBookings exEnv exStore)))
              = snd (cleanupExpiredBookings exEnv exStore)"
    by (rule cleanupDeclinedBookings_noop) (simp add: b1 en exBooking_def msPerDay_def)
  have b4: "bookings (snd (runFullCleanup exEnv exStore))
              = [exBooking\<lparr>b_status := Declined, b_notes := Some (autoDeclineNote exEnv)\<rparr>]"
    unfolding snd_runFullCleanup n2 n3
    by (simp add: cleanupExpiredBlockedDates_def Let_def b1)
  have "bookings (snd (getAvailableTimeSlots exEnv exStore 518400000 1))
          = bookings (snd (runFullCleanup exEnv exStore))"
    using lookupService_shape [of "e_now exEnv" "snd (runFullCleanup exEnv exStore)" 1]
    unfolding snd_getAvailableTimeSlots by auto
  then have c2: "map b_status (bookings (snd (getAvailableTimeSlots exEnv exStore 518400000 1))) = [Declined]"
    by (simp add: b4)
  have c1: "map b_status (bookings exStore) = [Pending]"
    by (simp add: exStore_def exBooking_def)
  from c1 c2 show ?thesis by blast
qed

end
